theory Spec2Isabelle
  imports Complex_Main "HOL-Library.Word"
begin

section \<open>Strings of the host language\<close>

text \<open>
  The program is TypeScript: a string is a sequence of 16-bit code units, and
  \<open>trim\<close>, \<open>split\<close>, \<open>includes\<close>, \<open>indexOf\<close> and \<open>substring\<close> all work on code
  units.  Literals of the source that are not ASCII are written with their code units.
\<close>

type_synonym ustring = "16 word list"

definition asc :: "string \<Rightarrow> ustring" where
  "asc s = map (\<lambda>c. of_nat (of_char c)) s"

definition TAB :: "16 word" where "TAB = 0x09"
definition NL :: "16 word" where "NL = 0x0A"
definition SP :: "16 word" where "SP = 0x20"
definition DQUOTE :: "16 word" where "DQUOTE = 0x22"
definition COMMA :: "16 word" where "COMMA = 0x2C"
definition LBRACK :: "16 word" where "LBRACK = 0x5B"
definition RBRACK :: "16 word" where "RBRACK = 0x5D"

text \<open>
  \<open>String.prototype.trim\<close> removes white space and line terminators from both ends:
  TAB, LF, VT, FF, CR, SPACE, NBSP, the Unicode space separators, LS, PS and the
  byte-order mark.
\<close>

definition is_ws :: "16 word \<Rightarrow> bool" where
  "is_ws c \<longleftrightarrow>
     c = 0x09 \<or> c = 0x0A \<or> c = 0x0B \<or> c = 0x0C \<or> c = 0x0D \<or> c = 0x20 \<or> c = 0xA0 \<or>
     c = 0x1680 \<or> (0x2000 \<le> c \<and> c \<le> 0x200A) \<or> c = 0x2028 \<or> c = 0x2029 \<or>
     c = 0x202F \<or> c = 0x205F \<or> c = 0x3000 \<or> c = 0xFEFF"

definition trim :: "ustring \<Rightarrow> ustring" where
  "trim s = rev (dropWhile is_ws (rev (dropWhile is_ws s)))"

text \<open>\<open>s.split(d)\<close> for a separator \<open>d\<close> of one code unit; \<open>cur\<close> is the piece being
  read, reversed.\<close>

fun split_char :: "16 word \<Rightarrow> ustring \<Rightarrow> ustring \<Rightarrow> ustring list" where
  "split_char d cur [] = [rev cur]"
| "split_char d cur (c # cs) =
     (if c = d then rev cur # split_char d [] cs else split_char d (c # cur) cs)"

text \<open>
  \<open>line.split(/\t| {2,}/)\<close>: at each position the pattern matches one tab, or else the
  longest run of at least two spaces; a single space is ordinary text.
\<close>

function split_fields :: "ustring \<Rightarrow> ustring \<Rightarrow> ustring list" where
  "split_fields cur [] = [rev cur]"
| "split_fields cur (c # cs) =
     (if c = TAB then rev cur # split_fields [] cs
      else if c = SP \<and> (case cs of [] \<Rightarrow> False | c' # _ \<Rightarrow> c' = SP)
        then rev cur # split_fields [] (dropWhile (\<lambda>x. x = SP) cs)
      else split_fields (c # cur) cs)"
  by pat_completeness auto
termination
  by (relation "measure (\<lambda>(cur, s). length s)")
     (auto simp: length_dropWhile_le less_Suc_eq_le)

text \<open>\<open>s.includes(t)\<close>.\<close>

fun includes_u :: "ustring \<Rightarrow> ustring \<Rightarrow> bool" where
  "includes_u [] t = (t = [])"
| "includes_u (c # cs) t = (take (length t) (c # cs) = t \<or> includes_u cs t)"

text \<open>\<open>s.indexOf(c)\<close> and \<open>s.lastIndexOf(c)\<close> for a one-unit \<open>c\<close> that occurs in \<open>s\<close>
  (the source calls them only under that test), and \<open>s.substring(a, b)\<close>, which
  swaps its arguments when \<open>a > b\<close> and clamps them to the length.\<close>

definition indexOf :: "ustring \<Rightarrow> 16 word \<Rightarrow> nat" where
  "indexOf s c = length (takeWhile (\<lambda>x. x \<noteq> c) s)"

definition lastIndexOf :: "ustring \<Rightarrow> 16 word \<Rightarrow> nat" where
  "lastIndexOf s c = length s - 1 - length (takeWhile (\<lambda>x. x \<noteq> c) (rev s))"

definition substring :: "ustring \<Rightarrow> nat \<Rightarrow> nat \<Rightarrow> ustring" where
  "substring s a b = take (max a b - min a b) (drop (min a b) s)"

section \<open>Data model (types.ts)\<close>

record ProductInput =
  sku :: ustring
  chineseName :: ustring

record ProductResult = ProductInput +
  russianName :: ustring
  russianDescription :: ustring
  backTranslation :: ustring

record ProcessingStatus =
  total :: nat
  completed :: nat
  isProcessing :: bool
  error :: "ustring option"

section \<open>Input parser\<close>

text \<open>\<open>parts[i]?.trim() || ''\<close>: a missing part reads as \<open>undefined\<close> and gives the
  empty string.\<close>

definition part_trimmed :: "ustring list \<Rightarrow> nat \<Rightarrow> ustring" where
  "part_trimmed parts i = (if i < length parts then trim (parts ! i) else [])"

definition parse_line :: "ustring \<Rightarrow> ProductInput" where
  "parse_line line =
     (let parts = split_fields [] line
      in \<lparr>sku = part_trimmed parts 0, chineseName = part_trimmed parts 1\<rparr>)"

definition parseInput :: "ustring \<Rightarrow> ProductInput list" where
  "parseInput text =
     filter (\<lambda>p. sku p \<noteq> [] \<and> chineseName p \<noteq> [])
       (map parse_line (split_char NL [] (trim text)))"

section \<open>Values, exceptions and the host\<close>

text \<open>
  What \<open>JSON.parse\<close> and \<open>response.json()\<close> return, together with \<open>undefined\<close>, which
  reading a missing property gives.  Only whether a number is zero is ever observed.
  An object is its list of own properties; the program reads properties by name only,
  so their order is not observable.
\<close>

datatype jsval =
    JUndefined
  | JNull
  | JBool bool
  | JNum rat
  | JStr ustring
  | JArr "jsval list"
  | JObj "(ustring \<times> jsval) list"

text \<open>A thrown value, as far as the program looks at it: \<open>error.message\<close> and
  \<open>error.status\<close>.  \<open>new Error(m)\<close> has the message \<open>m\<close> and no status.\<close>

datatype jserr = JsError (emessage: "ustring option") (estatus: "nat option")

definition new_Error :: "ustring \<Rightarrow> jserr" where
  "new_Error m = JsError (Some m) None"

text \<open>
  The engine under the program: \<open>JSON.parse\<close> (its result, or the SyntaxError it
  throws), the TypeError the engine throws when a property of \<open>null\<close> or \<open>undefined\<close>
  is read or a non-function is called, and the conversion of a value to a string.
\<close>

record host =
  JSON_parse :: "ustring \<Rightarrow> jserr + jsval"
  TypeError :: jserr
  ToString :: "jsval \<Rightarrow> ustring"

definition truthy :: "jsval \<Rightarrow> bool" where
  "truthy v = (case v of
      JUndefined \<Rightarrow> False | JNull \<Rightarrow> False | JBool b \<Rightarrow> b | JNum x \<Rightarrow> x \<noteq> 0
    | JStr s \<Rightarrow> s \<noteq> [] | JArr _ \<Rightarrow> True | JObj _ \<Rightarrow> True)"

text \<open>\<open>v.k\<close> for a property name \<open>k\<close> that no built-in prototype defines
  (\<open>sku\<close>, \<open>products\<close>, \<open>choices\<close>, \<open>message\<close>, \<open>content\<close>, \<open>error\<close>, ...).\<close>

definition jprop :: "host \<Rightarrow> jsval \<Rightarrow> ustring \<Rightarrow> jserr + jsval" where
  "jprop h v k = (case v of
      JUndefined \<Rightarrow> Inl (TypeError h)
    | JNull \<Rightarrow> Inl (TypeError h)
    | JObj fs \<Rightarrow> Inr (case map_of fs k of Some x \<Rightarrow> x | None \<Rightarrow> JUndefined)
    | _ \<Rightarrow> Inr JUndefined)"

text \<open>\<open>v[0]\<close>.\<close>

definition jindex0 :: "host \<Rightarrow> jsval \<Rightarrow> jserr + jsval" where
  "jindex0 h v = (case v of
      JUndefined \<Rightarrow> Inl (TypeError h)
    | JNull \<Rightarrow> Inl (TypeError h)
    | JArr xs \<Rightarrow> Inr (case xs of [] \<Rightarrow> JUndefined | x # _ \<Rightarrow> x)
    | JStr s \<Rightarrow> Inr (case s of [] \<Rightarrow> JUndefined | c # _ \<Rightarrow> JStr [c])
    | JObj fs \<Rightarrow> Inr (case map_of fs (asc ''0'') of Some x \<Rightarrow> x | None \<Rightarrow> JUndefined)
    | _ \<Rightarrow> Inr JUndefined)"

function show_nat :: "nat \<Rightarrow> ustring" where
  "show_nat n = (if n < 10 then [of_nat (48 + n)]
                 else show_nat (n div 10) @ [of_nat (48 + n mod 10)])"
  by pat_completeness auto
termination
  by (relation "measure id") auto

text \<open>The network as the program sees it: how many requests have been sent, and the
  delays (in ms) it has waited, in order.\<close>

record net =
  ncalls :: nat
  waits :: "nat list"

definition sent :: "net \<Rightarrow> net" where
  "sent w = w\<lparr>ncalls := ncalls w + 1\<rparr>"

definition delay :: "nat \<Rightarrow> net \<Rightarrow> net" where
  "delay ms w = w\<lparr>waits := waits w @ [ms]\<rparr>"

section \<open>Reconciliation against the batch\<close>

definition unknown_name :: ustring where
  "unknown_name = [0x672A, 0x77E5]"

text \<open>\<open>products.find(p => p.sku === res.sku)\<close>: the callback reads \<open>res.sku\<close> once per
  product visited, so it throws on a \<open>null\<close> entry only when the batch is not empty.\<close>

fun find_original :: "host \<Rightarrow> ProductInput list \<Rightarrow> jsval \<Rightarrow> jserr + ProductInput option" where
  "find_original h [] res = Inr None"
| "find_original h (p # ps) res =
     (case jprop h res (asc ''sku'') of
        Inl e \<Rightarrow> Inl e
      | Inr v \<Rightarrow> if v = JStr (sku p) then Inr (Some p) else find_original h ps res)"

text \<open>\<open>original?.chineseName || "..."\<close>, the literal being the two characters for
  "unknown".\<close>

definition source_name :: "ProductInput option \<Rightarrow> ustring" where
  "source_name original = (case original of
      None \<Rightarrow> unknown_name
    | Some p \<Rightarrow> if chineseName p \<noteq> [] then chineseName p else unknown_name)"

text \<open>\<open>results.map(f)\<close> where \<open>f\<close> may throw: the first exception ends the map.\<close>

fun map_throwing :: "('a \<Rightarrow> jserr + 'b) \<Rightarrow> 'a list \<Rightarrow> jserr + 'b list" where
  "map_throwing f [] = Inr []"
| "map_throwing f (x # xs) =
     (case f x of
        Inl e \<Rightarrow> Inl e
      | Inr y \<Rightarrow> (case map_throwing f xs of Inl e \<Rightarrow> Inl e | Inr ys \<Rightarrow> Inr (y # ys)))"

section \<open>Gemini adapter (services/geminiService.ts)\<close>

text \<open>
  One call of \<open>ai.models.generateContent\<close>: it rejects, or it resolves to a response
  whose \<open>text\<close> is a string or \<open>undefined\<close>.  The service is a function of the number
  of requests sent before and of the prompt; the prompt is a fixed template around
  the batch, so the model passes the batch.
\<close>

datatype gen_outcome = GenReject jserr | GenResponse "ustring option"

definition isRateLimit :: "jserr \<Rightarrow> bool" where
  "isRateLimit e \<longleftrightarrow>
     (case emessage e of None \<Rightarrow> False | Some m \<Rightarrow> includes_u m (asc ''429''))
     \<or> estatus e = Some 429"

text \<open>The body of the \<open>try\<close>: the call, then \<open>JSON.parse(response.text.trim())\<close>.\<close>

definition gen_try :: "host \<Rightarrow> gen_outcome \<Rightarrow> jserr + jsval" where
  "gen_try h out = (case out of
      GenReject e \<Rightarrow> Inl e
    | GenResponse t \<Rightarrow> (case t of None \<Rightarrow> Inl (TypeError h) | Some s \<Rightarrow> JSON_parse h (trim s)))"

text \<open>The \<open>for\<close> loop of \<open>generateWithRetry\<close>.  \<open>Inl None\<close> is \<open>throw lastError\<close> with
  \<open>lastError\<close> still \<open>undefined\<close>.\<close>

function gen_loop ::
  "host \<Rightarrow> (nat \<Rightarrow> 'p \<Rightarrow> gen_outcome) \<Rightarrow> 'p \<Rightarrow> nat \<Rightarrow> nat \<Rightarrow> jserr option \<Rightarrow> net
     \<Rightarrow> (jserr option + jsval) \<times> net" where
  "gen_loop h api prompt maxRetries attempt lastError w =
     (if attempt < maxRetries then
        (case gen_try h (api (ncalls w) prompt) of
           Inr v \<Rightarrow> (Inr v, sent w)
         | Inl e \<Rightarrow>
             if isRateLimit e \<and> attempt < maxRetries - 1
             then gen_loop h api prompt maxRetries (attempt + 1) (Some e)
                    (delay (2 ^ (attempt + 1) * 1000) (sent w))
             else (Inl (Some e), sent w))
      else (Inl lastError, w))"
  by pat_completeness auto
termination
  by (relation "measure (\<lambda>(h, api, prompt, maxRetries, attempt, lastError, w). maxRetries - attempt)")
     auto

definition generateWithRetry ::
  "host \<Rightarrow> (nat \<Rightarrow> 'p \<Rightarrow> gen_outcome) \<Rightarrow> 'p \<Rightarrow> nat \<Rightarrow> net \<Rightarrow> (jserr option + jsval) \<times> net" where
  "generateWithRetry h api prompt maxRetries w = gen_loop h api prompt maxRetries 0 None w"

definition gemini_failure :: ustring where
  "gemini_failure =
     [0x0041, 0x0050, 0x0049, 0x0020, 0x989D, 0x5EA6, 0x53EF, 0x80FD, 0x4E0D, 0x8DB3, 0x6216,
      0x8FDE, 0x63A5, 0x8D85, 0x65F6, 0x3002, 0x5EFA, 0x8BAE, 0x51CF, 0x5C0F, 0x5355, 0x6B21,
      0x5904, 0x7406, 0x91CF, 0x6216, 0x7A0D, 0x540E, 0x518D, 0x8BD5, 0x3002]"

text \<open>\<open>{...res}\<close>: the own properties of an object, the elements of an array under
  their indices, the code units of a string under theirs; nothing for any other value.\<close>

definition spread :: "jsval \<Rightarrow> (ustring \<times> jsval) list" where
  "spread v = (case v of
      JObj fs \<Rightarrow> fs
    | JArr xs \<Rightarrow> zip (map show_nat [0 ..< length xs]) xs
    | JStr s \<Rightarrow> zip (map show_nat [0 ..< length s]) (map (\<lambda>c. JStr [c]) s)
    | _ \<Rightarrow> [])"

fun set_prop :: "ustring \<Rightarrow> jsval \<Rightarrow> (ustring \<times> jsval) list \<Rightarrow> (ustring \<times> jsval) list" where
  "set_prop k v [] = [(k, v)]"
| "set_prop k v ((k', v') # fs) = (if k' = k then (k, v) # fs else (k', v') # set_prop k v fs)"

definition gemini_entry :: "host \<Rightarrow> ProductInput list \<Rightarrow> jsval \<Rightarrow> jserr + jsval" where
  "gemini_entry h products res =
     (case find_original h products res of
        Inl e \<Rightarrow> Inl e
      | Inr original \<Rightarrow>
          Inr (JObj (set_prop (asc ''chineseName'') (JStr (source_name original)) (spread res))))"

text \<open>\<open>results.map\<close> exists only on an array; on anything else the call throws.\<close>

definition map_entries :: "host \<Rightarrow> (jsval \<Rightarrow> jserr + jsval) \<Rightarrow> jsval \<Rightarrow> jserr + jsval list" where
  "map_entries h f results = (case results of JArr rs \<Rightarrow> map_throwing f rs | _ \<Rightarrow> Inl (TypeError h))"

definition processProductsBatch ::
  "host \<Rightarrow> (nat \<Rightarrow> ProductInput list \<Rightarrow> gen_outcome) \<Rightarrow> ProductInput list \<Rightarrow> net
     \<Rightarrow> (ustring + jsval list) \<times> net" where
  "processProductsBatch h api products w =
     (case generateWithRetry h api products 3 w of
        (Inl e, w') \<Rightarrow> (Inl gemini_failure, w')
      | (Inr results, w') \<Rightarrow>
          (case map_entries h (gemini_entry h products) results of
             Inl e \<Rightarrow> (Inl gemini_failure, w')
           | Inr rs \<Rightarrow> (Inr rs, w')))"

section \<open>DeepSeek adapter (services/deepseekService.ts)\<close>

text \<open>
  One \<open>fetch\<close>: it rejects, or it resolves to a response with a status and a body;
  \<open>response.json()\<close> gives the body's value or rejects.  \<open>response.ok\<close> is a status
  from 200 to 299.
\<close>

datatype fetch_outcome = FetchReject jserr | FetchResponse nat "jserr + jsval"

definition response_ok :: "nat \<Rightarrow> bool" where
  "response_ok st \<longleftrightarrow> 200 \<le> st \<and> st \<le> 299"

definition and_then :: "jserr + 'a \<Rightarrow> ('a \<Rightarrow> jserr + 'b) \<Rightarrow> jserr + 'b" where
  "and_then r f = (case r of Inl e \<Rightarrow> Inl e | Inr x \<Rightarrow> f x)"

text \<open>\<open>v?.k\<close> once \<open>v\<close> is known not to throw: \<open>undefined\<close> for \<open>null\<close> and
  \<open>undefined\<close>.\<close>

definition opt_prop :: "jsval \<Rightarrow> ustring \<Rightarrow> jsval" where
  "opt_prop v k = (case v of
      JObj fs \<Rightarrow> (case map_of fs k of Some x \<Rightarrow> x | None \<Rightarrow> JUndefined)
    | _ \<Rightarrow> JUndefined)"

text \<open>\<open>new Error(errorData.error?.message || `HTTP error! status: ${response.status}`)\<close>;
  reading \<open>errorData.error\<close> throws when \<open>errorData\<close> is \<open>null\<close>.\<close>

definition http_error :: "host \<Rightarrow> nat \<Rightarrow> jsval \<Rightarrow> jserr" where
  "http_error h st errorData =
     (case jprop h errorData (asc ''error'') of
        Inl e \<Rightarrow> e
      | Inr er \<Rightarrow>
          (let m = opt_prop er (asc ''message'')
           in if truthy m
              then new_Error (case m of JStr s \<Rightarrow> s | _ \<Rightarrow> ToString h m)
              else new_Error (asc ''HTTP error! status: '' @ show_nat st)))"

text \<open>\<open>data.choices[0].message.content.trim()\<close>.\<close>

definition message_content :: "host \<Rightarrow> jsval \<Rightarrow> jserr + ustring" where
  "message_content h data =
     and_then (jprop h data (asc ''choices'')) (\<lambda>choices.
     and_then (jindex0 h choices) (\<lambda>choice.
     and_then (jprop h choice (asc ''message'')) (\<lambda>msg.
     and_then (jprop h msg (asc ''content'')) (\<lambda>content.
       case content of JStr s \<Rightarrow> Inr (trim s) | _ \<Rightarrow> Inl (TypeError h)))))"

text \<open>The array heuristic: from the first \<open>[\<close> to the last \<open>]\<close>, when both occur.\<close>

definition extract_array :: "ustring \<Rightarrow> ustring" where
  "extract_array content =
     (if LBRACK \<in> set content \<and> RBRACK \<in> set content
      then substring content (indexOf content LBRACK) (lastIndexOf content RBRACK + 1)
      else content)"

text \<open>
  What the \<open>try\<close> block of \<open>makeRequest\<close> does with one response, short of the two
  recursive calls: it returns a value, or takes the rate-limit branch, or throws.
\<close>

datatype try_result = Returned jsval | Backoff | Thrown jserr

definition ds_try :: "host \<Rightarrow> nat \<Rightarrow> fetch_outcome \<Rightarrow> try_result" where
  "ds_try h attempt out = (case out of
      FetchReject e \<Rightarrow> Thrown e
    | FetchResponse st body \<Rightarrow>
        if \<not> response_ok st then
          (case body of
             Inl e \<Rightarrow> Thrown e
           | Inr errorData \<Rightarrow>
               if st = 429 \<and> attempt < 3 then Backoff
               else Thrown (http_error h st errorData))
        else
          (case and_then body (message_content h) of
             Inl e \<Rightarrow> Thrown e
           | Inr content \<Rightarrow>
               (case JSON_parse h (extract_array content) of
                  Inl e \<Rightarrow> Thrown e
                | Inr v \<Rightarrow> Returned v)))"

text \<open>
  \<open>makeRequest\<close>.  The rate-limit branch is \<open>return makeRequest(attempt + 1)\<close> inside
  the \<open>try\<close>: the promise is returned without being awaited there, so a rejection of
  the inner call does not pass through this call's \<open>catch\<close>.  Every exception thrown
  in the \<open>try\<close> itself does.
\<close>

function makeRequest ::
  "host \<Rightarrow> (nat \<Rightarrow> ustring \<Rightarrow> ProductInput list \<Rightarrow> fetch_outcome) \<Rightarrow> ustring \<Rightarrow> ProductInput list
     \<Rightarrow> nat \<Rightarrow> net \<Rightarrow> (jserr + jsval) \<times> net" where
  "makeRequest h api apiKey products attempt w =
     (case ds_try h attempt (api (ncalls w) apiKey products) of
        Returned v \<Rightarrow> (Inr v, sent w)
      | Backoff \<Rightarrow>
          makeRequest h api apiKey products (attempt + 1)
            (delay (2 ^ (attempt + 1) * 1000) (sent w))
      | Thrown e \<Rightarrow>
          if attempt < 2
          then makeRequest h api apiKey products (attempt + 1) (delay 2000 (sent w))
          else (Inl e, sent w))"
  by pat_completeness auto
termination
  by (relation "measure (\<lambda>(h, api, apiKey, products, attempt, w). 3 - attempt)")
     (auto simp: ds_try_def split: fetch_outcome.splits sum.splits if_splits)

text \<open>\<open>Array.isArray(rawResults) ? rawResults : (rawResults.products || [])\<close>.\<close>

definition ds_results :: "host \<Rightarrow> jsval \<Rightarrow> jserr + jsval" where
  "ds_results h rawResults = (case rawResults of
      JArr rs \<Rightarrow> Inr (JArr rs)
    | _ \<Rightarrow> and_then (jprop h rawResults (asc ''products''))
            (\<lambda>v. Inr (if truthy v then v else JArr [])))"

definition deepseek_entry :: "host \<Rightarrow> ProductInput list \<Rightarrow> jsval \<Rightarrow> jserr + jsval" where
  "deepseek_entry h products res =
     and_then (find_original h products res) (\<lambda>original.
     and_then (jprop h res (asc ''sku'')) (\<lambda>s.
     and_then (jprop h res (asc ''russianName'')) (\<lambda>rn.
     and_then (jprop h res (asc ''russianDescription'')) (\<lambda>rd.
     and_then (jprop h res (asc ''backTranslation'')) (\<lambda>bt.
       Inr (JObj [(asc ''sku'', s),
                  (asc ''chineseName'', JStr (source_name original)),
                  (asc ''russianName'', rn),
                  (asc ''russianDescription'', rd),
                  (asc ''backTranslation'', bt)]))))))"

text \<open>\<open>`DeepSeek ...: ${error.message}`\<close>; a missing message prints as
  \<open>undefined\<close>.\<close>

definition deepseek_failure :: "jserr \<Rightarrow> ustring" where
  "deepseek_failure e =
     [0x0044, 0x0065, 0x0065, 0x0070, 0x0053, 0x0065, 0x0065, 0x006B, 0x0020, 0x5904, 0x7406,
      0x5931, 0x8D25, 0x003A, 0x0020]
     @ (case emessage e of Some m \<Rightarrow> m | None \<Rightarrow> asc ''undefined'')"

definition processProductsWithDeepSeek ::
  "host \<Rightarrow> (nat \<Rightarrow> ustring \<Rightarrow> ProductInput list \<Rightarrow> fetch_outcome) \<Rightarrow> ProductInput list \<Rightarrow> ustring
     \<Rightarrow> net \<Rightarrow> (ustring + jsval list) \<times> net" where
  "processProductsWithDeepSeek h api products apiKey w =
     (case makeRequest h api apiKey products 0 w of
        (Inl e, w') \<Rightarrow> (Inl (deepseek_failure e), w')
      | (Inr rawResults, w') \<Rightarrow>
          (case and_then (ds_results h rawResults) (map_entries h (deepseek_entry h products)) of
             Inl e \<Rightarrow> (Inl (deepseek_failure e), w')
           | Inr rs \<Rightarrow> (Inr rs, w')))"

section \<open>Batch scheduler (App.tsx, both variants)\<close>

datatype ApiProvider = Gemini | DeepSeek

text \<open>
  The component state.  Both variants of the component hold \<open>rawInput\<close>, \<open>results\<close>,
  \<open>isWaitingForNextBatch\<close> and \<open>status\<close>; the two-backend variant adds the provider,
  its key and the settings panel, the DeepSeek-only variant its key.
\<close>

record 'r core_state =
  rawInput :: ustring
  results :: "'r list"
  isWaitingForNextBatch :: bool
  status :: ProcessingStatus

record 'r app_state = "'r core_state" +
  provider :: ApiProvider
  deepSeekKey :: ustring
  showSettings :: bool

record 'r app_state_ds = "'r core_state" +
  apiKey :: ustring

text \<open>
  What one call of \<open>handleProcess\<close> does: the message it passes to \<open>alert\<close> if any, the
  state after each call of a state setter in order, the batches it hands to an adapter
  in order, and the world the adapters leave.
\<close>

record ('s, 'w) run =
  alert :: "ustring option"
  trace :: "'s list"
  issued :: "ProductInput list list"
  world :: 'w

definition final :: "'s \<Rightarrow> ('s, 'w) run \<Rightarrow> 's" where
  "final st r = last (st # trace r)"

text \<open>\<open>xs.slice(a, b)\<close> for \<open>a \<le> b\<close>.\<close>

definition slice :: "'a list \<Rightarrow> nat \<Rightarrow> nat \<Rightarrow> 'a list" where
  "slice xs a b = take (b - a) (drop a xs)"

text \<open>The pacing before every batch but the first: the waiting flag goes up, the
  scheduler sleeps 1500 ms, the flag goes down.\<close>

definition pacing :: "nat \<Rightarrow> ('r, 'z) core_state_scheme \<Rightarrow> ('r, 'z) core_state_scheme list" where
  "pacing i st =
     (if i > 0
      then [st\<lparr>isWaitingForNextBatch := True\<rparr>, st\<lparr>isWaitingForNextBatch := False\<rparr>]
      else [])"

text \<open>After a batch: \<open>setResults(prev => [...prev, ...batchResults])\<close>, then
  \<open>setStatus\<close> with \<open>completed: Math.min(prev.completed + batch.length, prev.total)\<close>.\<close>

definition append_results ::
  "'r list \<Rightarrow> ('r, 'z) core_state_scheme \<Rightarrow> ('r, 'z) core_state_scheme" where
  "append_results batchResults st = st\<lparr>results := results st @ batchResults\<rparr>"

definition advance :: "nat \<Rightarrow> ('r, 'z) core_state_scheme \<Rightarrow> ('r, 'z) core_state_scheme" where
  "advance n st =
     st\<lparr>status := (status st)\<lparr>completed := min (completed (status st) + n) (total (status st))\<rparr>\<rparr>"

text \<open>
  The \<open>for\<close> loop of the two-backend variant, from index \<open>i\<close>.  The adapters are
  parameters: each takes the batch (DeepSeek also the key) and the world, and returns
  the records or the message of the Error it throws; \<open>processProductsBatch h api\<close> and
  \<open>processProductsWithDeepSeek h api\<close> are the adapters of the program.  The first
  component of the result is the message of the exception that left the loop, if one
  did.
\<close>

function batch_loop ::
  "(ProductInput list \<Rightarrow> 'w \<Rightarrow> (ustring + 'r list) \<times> 'w) \<Rightarrow>
   (ProductInput list \<Rightarrow> ustring \<Rightarrow> 'w \<Rightarrow> (ustring + 'r list) \<times> 'w) \<Rightarrow>
   ApiProvider \<Rightarrow> ustring \<Rightarrow> ProductInput list \<Rightarrow> nat \<Rightarrow> ('r, 'z) core_state_scheme \<Rightarrow> 'w \<Rightarrow>
   ustring option \<times> ('r, 'z) core_state_scheme list \<times> ProductInput list list \<times> 'w" where
  "batch_loop gem ds p key inputs i st w =
     (let batchSize = (if p = Gemini then 4 else 5) in
      if i < length inputs then
        (let batch = slice inputs i (i + batchSize);
             st1 = last (st # pacing i st)
         in case (if p = DeepSeek then ds batch key w else gem batch w) of
              (Inl msg, w') \<Rightarrow> (Some msg, pacing i st, [batch], w')
            | (Inr batchResults, w') \<Rightarrow>
                (let st2 = append_results batchResults st1;
                     st3 = advance (length batch) st2
                 in case batch_loop gem ds p key inputs (i + batchSize) st3 w' of
                      (e, tr, bs, w'') \<Rightarrow> (e, pacing i st @ [st2, st3] @ tr, batch # bs, w'')))
      else (None, [], [], w))"
  by pat_completeness auto
termination
  by (relation "measure (\<lambda>(gem, ds, p, key, inputs, i, st, w). length inputs - i)") auto

text \<open>The same loop in the DeepSeek-only variant: the batch size is 5 and the adapter
  is always DeepSeek.\<close>

function batch_loop_ds ::
  "(ProductInput list \<Rightarrow> ustring \<Rightarrow> 'w \<Rightarrow> (ustring + 'r list) \<times> 'w) \<Rightarrow>
   ustring \<Rightarrow> ProductInput list \<Rightarrow> nat \<Rightarrow> ('r, 'z) core_state_scheme \<Rightarrow> 'w \<Rightarrow>
   ustring option \<times> ('r, 'z) core_state_scheme list \<times> ProductInput list list \<times> 'w" where
  "batch_loop_ds ds key inputs i st w =
     (let batchSize = 5 in
      if i < length inputs then
        (let batch = slice inputs i (i + batchSize);
             st1 = last (st # pacing i st)
         in case ds batch key w of
              (Inl msg, w') \<Rightarrow> (Some msg, pacing i st, [batch], w')
            | (Inr batchResults, w') \<Rightarrow>
                (let st2 = append_results batchResults st1;
                     st3 = advance (length batch) st2
                 in case batch_loop_ds ds key inputs (i + batchSize) st3 w' of
                      (e, tr, bs, w'') \<Rightarrow> (e, pacing i st @ [st2, st3] @ tr, batch # bs, w'')))
      else (None, [], [], w))"
  by pat_completeness auto
termination
  by (relation "measure (\<lambda>(ds, key, inputs, i, st, w). length inputs - i)") auto

definition alert_no_data :: ustring where
  "alert_no_data =
     [0x8BF7, 0x63D0, 0x4F9B, 0x6709, 0x6548, 0x7684, 0x6570, 0x636E, 0x5185, 0x5BB9, 0xFF08,
      0x81F3, 0x5C11, 0x5305, 0x542B, 0x0020, 0x0053, 0x004B, 0x0055, 0x0020, 0x548C, 0x0020,
      0x4EA7, 0x54C1, 0x540D, 0x79F0, 0xFF09, 0x3002]"

definition alert_no_key :: ustring where
  "alert_no_key =
     [0x8BF7, 0x5148, 0x5728, 0x8BBE, 0x7F6E, 0x4E2D, 0x8F93, 0x5165, 0x0020, 0x0044, 0x0065,
      0x0065, 0x0070, 0x0053, 0x0065, 0x0065, 0x006B, 0x0020, 0x0041, 0x0050, 0x0049, 0x0020,
      0x004B, 0x0065, 0x0079, 0x3002]"

definition alert_no_key_ds :: ustring where
  "alert_no_key_ds =
     [0x8BF7, 0x5148, 0x8F93, 0x5165, 0x0020, 0x0044, 0x0065, 0x0065, 0x0070, 0x0053, 0x0065,
      0x0065, 0x006B, 0x0020, 0x0041, 0x0050, 0x0049, 0x0020, 0x004B, 0x0065, 0x0079, 0x0020,
      0x624D, 0x80FD, 0x5F00, 0x59CB, 0x4F7F, 0x7528, 0x3002]"

text \<open>The message the \<open>catch\<close> stores: a fixed prefix, \<open>err.message\<close>, and a fixed
  advice that differs between the variants.\<close>

definition interrupted :: "ustring \<Rightarrow> ustring" where
  "interrupted msg =
     [0x5904, 0x7406, 0x4E2D, 0x65AD, 0x003A, 0x0020] @ msg @
     [0x3002, 0x5EFA, 0x8BAE, 0x5BFC, 0x51FA, 0x5DF2, 0x5B8C, 0x6210, 0x7684, 0x90E8, 0x5206,
      0x5E76, 0x68C0, 0x67E5, 0x7F51, 0x7EDC, 0x002F, 0x0041, 0x0050, 0x0049, 0x0020, 0x004B,
      0x0065, 0x0079, 0x3002]"

definition interrupted_ds :: "ustring \<Rightarrow> ustring" where
  "interrupted_ds msg =
     [0x5904, 0x7406, 0x4E2D, 0x65AD, 0x003A, 0x0020] @ msg @
     [0x3002, 0x8BF7, 0x68C0, 0x67E5, 0x0020, 0x0041, 0x0050, 0x0049, 0x0020, 0x004B, 0x0065,
      0x0079, 0x0020, 0x4F59, 0x989D, 0x6216, 0x7F51, 0x7EDC, 0x8FDE, 0x63A5, 0x3002]"

text \<open>The states set from the first \<open>setStatus\<close> of a run on: the reset, the loop, the
  \<open>catch\<close> if the loop threw, and the \<open>finally\<close>.\<close>

definition run_started :: "nat \<Rightarrow> ('r, 'z) core_state_scheme \<Rightarrow> ('r, 'z) core_state_scheme list" where
  "run_started n st =
     [st\<lparr>status := \<lparr>total = n, completed = 0, isProcessing = True, error = None\<rparr>\<rparr>,
      st\<lparr>status := \<lparr>total = n, completed = 0, isProcessing = True, error = None\<rparr>,
         results := []\<rparr>]"

definition run_ended ::
  "(ustring \<Rightarrow> ustring) \<Rightarrow> ustring option \<Rightarrow> ('r, 'z) core_state_scheme \<Rightarrow> ('r, 'z) core_state_scheme list" where
  "run_ended describe e st =
     (let caught = (case e of
                      None \<Rightarrow> []
                    | Some msg \<Rightarrow> [st\<lparr>status := (status st)\<lparr>error := Some (describe msg)\<rparr>\<rparr>]);
          st1 = last (st # caught);
          st2 = st1\<lparr>status := (status st1)\<lparr>isProcessing := False\<rparr>\<rparr>
      in caught @ [st2, st2\<lparr>isWaitingForNextBatch := False\<rparr>])"

text \<open>\<open>handleProcess\<close> of the two-backend variant.\<close>

definition handleProcess ::
  "(ProductInput list \<Rightarrow> 'w \<Rightarrow> (ustring + 'r list) \<times> 'w) \<Rightarrow>
   (ProductInput list \<Rightarrow> ustring \<Rightarrow> 'w \<Rightarrow> (ustring + 'r list) \<times> 'w) \<Rightarrow>
   'r app_state \<Rightarrow> 'w \<Rightarrow> ('r app_state, 'w) run" where
  "handleProcess gem ds st w =
     (let inputs = parseInput (rawInput st) in
      if length inputs = 0
        then \<lparr>alert = Some alert_no_data, trace = [], issued = [], world = w\<rparr>
      else if provider st = DeepSeek \<and> trim (deepSeekKey st) = []
        then \<lparr>alert = Some alert_no_key, trace = [st\<lparr>showSettings := True\<rparr>],
              issued = [], world = w\<rparr>
      else
        (let started = run_started (length inputs) st
         in case batch_loop gem ds (provider st) (deepSeekKey st) inputs 0 (last started) w of
              (e, tr, bs, w') \<Rightarrow>
                \<lparr>alert = None,
                 trace = started @ tr @ run_ended interrupted e (last (started @ tr)),
                 issued = bs, world = w'\<rparr>))"

text \<open>\<open>handleProcess\<close> of the DeepSeek-only variant: the key is tested first.\<close>

definition handleProcess_ds ::
  "(ProductInput list \<Rightarrow> ustring \<Rightarrow> 'w \<Rightarrow> (ustring + 'r list) \<times> 'w) \<Rightarrow>
   'r app_state_ds \<Rightarrow> 'w \<Rightarrow> ('r app_state_ds, 'w) run" where
  "handleProcess_ds ds st w =
     (if trim (apiKey st) = []
        then \<lparr>alert = Some alert_no_key_ds, trace = [], issued = [], world = w\<rparr>
      else
        (let inputs = parseInput (rawInput st) in
         if length inputs = 0
           then \<lparr>alert = Some alert_no_data, trace = [], issued = [], world = w\<rparr>
         else
           (let started = run_started (length inputs) st
            in case batch_loop_ds ds (apiKey st) inputs 0 (last started) w of
                 (e, tr, bs, w') \<Rightarrow>
                   \<lparr>alert = None,
                    trace = started @ tr @ run_ended interrupted_ds e (last (started @ tr)),
                    issued = bs, world = w'\<rparr>)))"

section \<open>CSV export (downloadCSV)\<close>

fun join :: "ustring \<Rightarrow> ustring list \<Rightarrow> ustring" where
  "join sep [] = []"
| "join sep [x] = x"
| "join sep (x # y # ys) = x @ sep @ join sep (y # ys)"

text \<open>\<open>s.replace(/"/g, '""')\<close>.\<close>

definition double_quotes :: "ustring \<Rightarrow> ustring" where
  "double_quotes s = concat (map (\<lambda>c. if c = DQUOTE then [DQUOTE, DQUOTE] else [c]) s)"

definition quoted :: "ustring \<Rightarrow> ustring" where
  "quoted s = [DQUOTE] @ s @ [DQUOTE]"

text \<open>One row: \<open>sku\<close> and \<open>chineseName\<close> go between quotes as they are, the three other
  fields with their quotes doubled.\<close>

definition csv_row :: "ProductResult \<Rightarrow> ustring" where
  "csv_row r =
     join [COMMA]
       [quoted (sku r),
        quoted (chineseName r),
        quoted (double_quotes (russianName r)),
        quoted (double_quotes (russianDescription r)),
        quoted (double_quotes (backTranslation r))]"

definition csv_header :: ustring where
  "csv_header =
     join [COMMA] [asc ''SKU'', asc ''Original CN'', asc ''Russian Name'',
                   asc ''Russian Description'', asc ''CN Translation'']"

text \<open>The text of the downloaded file, after the byte-order mark; nothing is
  downloaded for an empty result list.\<close>

definition downloadCSV :: "ProductResult list \<Rightarrow> ustring option" where
  "downloadCSV rs =
     (if length rs = 0 then None
      else Some ([0xFEFF] @ csv_header @ [NL] @ join [NL] (map csv_row rs)))"

section \<open>Reference definitions and sample values\<close>

text \<open>
  The parser as the specification words it: split the text on newlines, split each line
  on a tab or a run of two or more spaces, trim the first two fields, drop the line when
  either is empty, ignore further fields.
\<close>

definition spec_line :: "ustring \<Rightarrow> ProductInput option" where
  "spec_line line =
     (case split_fields [] line of
        [] \<Rightarrow> None
      | [f0] \<Rightarrow> None
      | f0 # f1 # extras \<Rightarrow>
          if trim f0 = [] \<or> trim f1 = [] then None
          else Some \<lparr>sku = trim f0, chineseName = trim f1\<rparr>)"

definition parseInput_spec :: "ustring \<Rightarrow> ProductInput list" where
  "parseInput_spec text = List.map_filter spec_line (split_char NL [] text)"

text \<open>The name the specification gives a result record: the name of the first input of
  the batch whose \<open>sku\<close> equals the entry's \<open>sku\<close>, and the sentinel when there is none.\<close>

definition reconciled_name :: "ProductInput list \<Rightarrow> jsval \<Rightarrow> ustring" where
  "reconciled_name products res =
     (case List.find (\<lambda>p. JStr (sku p) = opt_prop res (asc ''sku'')) products of
        None \<Rightarrow> unknown_name
      | Some p \<Rightarrow> chineseName p)"

text \<open>A host that parses the texts \<open>null\<close>, \<open>[]\<close> and \<open>{}\<close> and rejects every other
  text, a network on which nothing has happened yet, a rate-limit error, and a
  chat-completion body that carries a given content.\<close>

definition sample_host :: host where
  "sample_host =
     \<lparr>JSON_parse = (\<lambda>s. if s = asc ''null'' then Inr JNull
                       else if s = asc ''[]'' then Inr (JArr [])
                       else if s = asc ''{}'' then Inr (JObj [])
                       else Inl (JsError (Some (asc ''Unexpected token'')) None)),
      TypeError = JsError (Some (asc ''Cannot read properties'')) None,
      ToString = (\<lambda>v. asc ''[object Object]'')\<rparr>"

definition fresh :: net where
  "fresh = \<lparr>ncalls = 0, waits = []\<rparr>"

definition too_many_requests :: jserr where
  "too_many_requests = JsError (Some (asc ''Too Many Requests'')) (Some 429)"

definition connection_lost :: jserr where
  "connection_lost = JsError (Some (asc ''Failed to fetch'')) None"

definition completion :: "ustring \<Rightarrow> jsval" where
  "completion content =
     JObj [(asc ''choices'',
            JArr [JObj [(asc ''message'', JObj [(asc ''content'', JStr content)])]])]"

text \<open>Response texts: an array of two entries with the skus \<open>A\<close> and \<open>B\<close>, an array
  whose one entry is \<open>null\<close>, and an object whose \<open>products\<close> field is the number 5;
  and a host that parses these three texts and rejects every other text.\<close>

definition two_entries :: ustring where
  "two_entries =
     asc ''[{'' @ quoted (asc ''sku'') @ asc '':'' @ quoted (asc ''A'') @ asc ''},{''
       @ quoted (asc ''sku'') @ asc '':'' @ quoted (asc ''B'') @ asc ''}]''"

definition null_entry :: ustring where
  "null_entry = asc ''[null]''"

definition products_number :: ustring where
  "products_number = asc ''{'' @ quoted (asc ''products'') @ asc '':5}''"

definition listing_host :: host where
  "listing_host =
     \<lparr>JSON_parse = (\<lambda>s. if s = two_entries
                           then Inr (JArr [JObj [(asc ''sku'', JStr (asc ''A''))],
                                           JObj [(asc ''sku'', JStr (asc ''B''))]])
                       else if s = null_entry then Inr (JArr [JNull])
                       else if s = products_number then Inr (JObj [(asc ''products'', JNum 5)])
                       else Inl (JsError (Some (asc ''Unexpected token'')) None)),
      TypeError = JsError (Some (asc ''Cannot read properties'')) None,
      ToString = (\<lambda>v. asc ''[object Object]'')\<rparr>"

text \<open>Two result records that differ only in where a quote, a comma and a quote
  stand: inside the \<open>sku\<close>, or inside the \<open>chineseName\<close>.\<close>

definition quote_in_sku :: ProductResult where
  "quote_in_sku =
     \<lparr>sku = asc ''a'' @ [DQUOTE, COMMA, DQUOTE] @ asc ''b'', chineseName = asc ''c'',
      russianName = asc ''x'', russianDescription = asc ''y'', backTranslation = asc ''z''\<rparr>"

definition quote_in_name :: ProductResult where
  "quote_in_name =
     \<lparr>sku = asc ''a'', chineseName = asc ''b'' @ [DQUOTE, COMMA, DQUOTE] @ asc ''c'',
      russianName = asc ''x'', russianDescription = asc ''y'', backTranslation = asc ''z''\<rparr>"

text \<open>
  The batch size the scheduler computes from the provider, the adapter call of one loop
  iteration, and the slices of a list into consecutive pieces of \<open>K\<close>:
  \<open>\<lceil>length xs / K\<rceil>\<close> of them.
\<close>

definition batch_size :: "ApiProvider \<Rightarrow> nat" where
  "batch_size p = (if p = Gemini then 4 else 5)"

definition call_adapter ::
  "(ProductInput list \<Rightarrow> 'w \<Rightarrow> (ustring + 'r list) \<times> 'w) \<Rightarrow>
   (ProductInput list \<Rightarrow> ustring \<Rightarrow> 'w \<Rightarrow> (ustring + 'r list) \<times> 'w) \<Rightarrow>
   ApiProvider \<Rightarrow> ustring \<Rightarrow> ProductInput list \<Rightarrow> 'w \<Rightarrow> (ustring + 'r list) \<times> 'w" where
  "call_adapter gem ds p key batch w = (if p = DeepSeek then ds batch key w else gem batch w)"

definition schedule :: "nat \<Rightarrow> 'a list \<Rightarrow> 'a list list" where
  "schedule K xs = map (\<lambda>j. slice xs (j * K) (j * K + K)) [0 ..< (length xs + K - 1) div K]"

text \<open>What both variants of \<open>handleProcess\<close> do once the start checks have passed, with
  the wording of the stored error as a parameter.\<close>

definition started_run ::
  "(ustring \<Rightarrow> ustring) \<Rightarrow>
   (ProductInput list \<Rightarrow> 'w \<Rightarrow> (ustring + 'r list) \<times> 'w) \<Rightarrow>
   (ProductInput list \<Rightarrow> ustring \<Rightarrow> 'w \<Rightarrow> (ustring + 'r list) \<times> 'w) \<Rightarrow>
   ApiProvider \<Rightarrow> ustring \<Rightarrow> ProductInput list \<Rightarrow> ('r, 'z) core_state_scheme \<Rightarrow> 'w \<Rightarrow>
   (('r, 'z) core_state_scheme, 'w) run" where
  "started_run describe gem ds p key inputs st w =
     (let started = run_started (length inputs) st
      in case batch_loop gem ds p key inputs 0 (last started) w of
           (e, tr, bs, w') \<Rightarrow>
             \<lparr>alert = None,
              trace = started @ tr @ run_ended describe e (last (started @ tr)),
              issued = bs, world = w'\<rparr>)"

text \<open>Sample inputs: a line \<open>a<TAB>b\<close>, texts of five, nine and eleven such lines, and
  component states of both variants that hold them.\<close>

definition one_line :: ustring where
  "one_line = asc ''a'' @ [TAB] @ asc ''b''"

definition five_lines :: ustring where
  "five_lines = one_line @ [NL] @ one_line @ [NL] @ one_line @ [NL] @ one_line @ [NL] @ one_line"

definition nine_lines :: ustring where
  "nine_lines = five_lines @ [NL] @ one_line @ [NL] @ one_line @ [NL] @ one_line @ [NL] @ one_line"

definition eleven_lines :: ustring where
  "eleven_lines = nine_lines @ [NL] @ one_line @ [NL] @ one_line"

definition ab :: ProductInput where
  "ab = \<lparr>sku = asc ''a'', chineseName = asc ''b''\<rparr>"

definition idle :: ProcessingStatus where
  "idle = \<lparr>total = 0, completed = 0, isProcessing = False, error = None\<rparr>"

definition gemini_state :: "ustring \<Rightarrow> nat app_state" where
  "gemini_state raw =
     \<lparr>rawInput = raw, results = [], isWaitingForNextBatch = False, status = idle,
      provider = Gemini, deepSeekKey = [], showSettings = False\<rparr>"

definition deepseek_state :: "ustring \<Rightarrow> ustring \<Rightarrow> nat app_state_ds" where
  "deepseek_state raw k =
     \<lparr>rawInput = raw, results = [], isWaitingForNextBatch = False, status = idle, apiKey = k\<rparr>"

text \<open>Sample adapters over a world that counts the calls: one returns a record per
  input, one throws on every call, one throws from its second call on.\<close>

definition echo_adapter :: "ProductInput list \<Rightarrow> nat \<Rightarrow> (ustring + nat list) \<times> nat" where
  "echo_adapter batch n = (Inr (map (\<lambda>p. n) batch), n + 1)"

definition failing_adapter :: "ProductInput list \<Rightarrow> nat \<Rightarrow> (ustring + nat list) \<times> nat" where
  "failing_adapter batch n = (Inl (asc ''quota''), n + 1)"

definition second_fails :: "ProductInput list \<Rightarrow> nat \<Rightarrow> (ustring + nat list) \<times> nat" where
  "second_fails batch n = (if n = 0 then echo_adapter batch n else failing_adapter batch n)"

declare gen_loop.simps [simp del] makeRequest.simps [simp del] show_nat.simps [simp del]
  batch_loop.simps [simp del] batch_loop_ds.simps [simp del]

section \<open>The input parser\<close>

lemma spec_line_parse_line:
  "spec_line l =
     (if sku (parse_line l) \<noteq> [] \<and> chineseName (parse_line l) \<noteq> []
      then Some (parse_line l) else None)"
  by (auto simp: parse_line_def spec_line_def part_trimmed_def Let_def split: list.splits)

lemma filter_parse_line:
  "filter (\<lambda>p. sku p \<noteq> [] \<and> chineseName p \<noteq> []) (map parse_line ls)
     = List.map_filter spec_line ls"
proof (induction ls)
  case Nil
  show ?case by simp
next
  case (Cons l ls)
  then show ?case by (simp add: spec_line_parse_line)
qed

text \<open>
  C6 (as amended).  The parser first trims the whole text; on the trimmed text it does
  what the specification says: split on newlines, split each line on a tab or a run of
  two or more spaces, trim the first two fields, drop a line where either is empty,
  ignore extra fields.  On the specification's example it yields exactly the records
  (A, foo) and (B, bar).
\<close>

theorem parseInput_trims_then_splits:
  "(\<forall>text. parseInput text = parseInput_spec (trim text)) \<and>
   parseInput (asc ''A'' @ [TAB] @ asc ''foo'' @ [NL] @ asc ''B  bar'' @ [NL, NL] @ asc ''C'')
     = [\<lparr>sku = asc ''A'', chineseName = asc ''foo''\<rparr>,
        \<lparr>sku = asc ''B'', chineseName = asc ''bar''\<rparr>]"
proof
  show "\<forall>text. parseInput text = parseInput_spec (trim text)"
    by (simp add: parseInput_def parseInput_spec_def filter_parse_line)
  show "parseInput (asc ''A'' @ [TAB] @ asc ''foo'' @ [NL] @ asc ''B  bar'' @ [NL, NL] @ asc ''C'')
     = [\<lparr>sku = asc ''A'', chineseName = asc ''foo''\<rparr>,
        \<lparr>sku = asc ''B'', chineseName = asc ''bar''\<rparr>]"
    by (simp add: parseInput_def parse_line_def part_trimmed_def trim_def is_ws_def asc_def
        TAB_def NL_def SP_def)
qed

text \<open>
  C6 as stated fails: on a text that starts with a tab, splitting the lines of the raw
  text gives an empty first field and drops the line, while the parser trims the tab away
  first and keeps the record.
\<close>

theorem parseInput_leading_tab_counterexample:
  "parseInput ([TAB] @ asc ''A'' @ [TAB] @ asc ''foo'')
     = [\<lparr>sku = asc ''A'', chineseName = asc ''foo''\<rparr>] \<and>
   parseInput_spec ([TAB] @ asc ''A'' @ [TAB] @ asc ''foo'') = []"
  by (simp add: parseInput_def parseInput_spec_def spec_line_def parse_line_def part_trimmed_def
      trim_def is_ws_def asc_def TAB_def NL_def SP_def)

section \<open>The retry policy\<close>

lemma rate_limit_status: "estatus e = Some 429 \<Longrightarrow> isRateLimit e"
  by (simp add: isRateLimit_def)

lemma ds_try_429:
  "ds_try h attempt (FetchResponse 429 (Inr d)) =
     (if attempt < 3 then Backoff else Thrown (http_error h 429 d))"
  by (simp add: ds_try_def response_ok_def)

lemma gemini_always_429:
  assumes "\<forall>n. api n prompt = GenReject (errs n) \<and> estatus (errs n) = Some 429"
  shows "generateWithRetry h api prompt 3 w =
      (Inl (Some (errs (ncalls w + 2))),
       \<lparr>ncalls = ncalls w + 3, waits = waits w @ [2000, 4000]\<rparr>)"
proof -
  have t: "\<And>n. gen_try h (api n prompt) = Inl (errs n)" and r: "\<And>n. isRateLimit (errs n)"
    using assms by (simp_all add: gen_try_def rate_limit_status)
  show ?thesis
    unfolding generateWithRetry_def
    apply (subst gen_loop.simps, simp add: t r sent_def delay_def)
    apply (subst gen_loop.simps, simp add: t r sent_def delay_def)
    apply (subst gen_loop.simps, simp add: t r sent_def delay_def)
    done
qed

lemma gemini_third_attempt:
  assumes "api (ncalls w) prompt = GenReject e0" "estatus e0 = Some 429"
    "api (ncalls w + 1) prompt = GenReject e1" "estatus e1 = Some 429"
    "api (ncalls w + 2) prompt = GenResponse (Some reply)" "JSON_parse h (trim reply) = Inr v"
  shows "generateWithRetry h api prompt 3 w =
      (Inr v, \<lparr>ncalls = ncalls w + 3, waits = waits w @ [2000, 4000]\<rparr>)"
proof -
  have r: "isRateLimit e0" "isRateLimit e1"
    using assms by (simp_all add: rate_limit_status)
  have a: "api (Suc (ncalls w)) prompt = GenReject e1"
    "api (Suc (Suc (ncalls w))) prompt = GenResponse (Some reply)"
    using assms(3,5) by simp_all
  show ?thesis
    unfolding generateWithRetry_def
    apply (subst gen_loop.simps, simp add: assms r gen_try_def sent_def delay_def)
    apply (subst gen_loop.simps, simp add: assms a r gen_try_def sent_def delay_def)
    apply (subst gen_loop.simps, simp add: assms a r gen_try_def sent_def delay_def)
    done
qed

lemma gemini_no_retry:
  assumes "attempt < maxRetries" "gen_try h (api (ncalls w) prompt) = Inl e" "\<not> isRateLimit e"
  shows "gen_loop h api prompt maxRetries attempt lastError w = (Inl (Some e), sent w)"
  using assms by (subst gen_loop.simps) simp

lemma deepseek_always_429:
  assumes "\<forall>n. api n key products = FetchResponse 429 (Inr (bodies n))"
  shows "makeRequest h api key products 0 w =
      (Inl (http_error h 429 (bodies (ncalls w + 3))),
       \<lparr>ncalls = ncalls w + 4, waits = waits w @ [2000, 4000, 8000]\<rparr>)"
proof -
  have t: "\<And>a n. ds_try h a (api n key products) =
             (if a < 3 then Backoff else Thrown (http_error h 429 (bodies n)))"
    using assms by (simp add: ds_try_429)
  have e3: "ncalls w + 3 = Suc (Suc (Suc (ncalls w)))" by simp
  show ?thesis
    apply (subst makeRequest.simps, simp add: t sent_def delay_def)
    apply (subst makeRequest.simps, simp add: t sent_def delay_def)
    apply (subst makeRequest.simps, simp add: t sent_def delay_def)
    apply (subst makeRequest.simps, simp add: t e3 sent_def delay_def)
    done
qed

lemma deepseek_fourth_attempt:
  assumes "api (ncalls w) key products = FetchResponse 429 (Inr b0)"
    "api (ncalls w + 1) key products = FetchResponse 429 (Inr b1)"
    "api (ncalls w + 2) key products = FetchResponse 429 (Inr b2)"
    "ds_try h 3 (api (ncalls w + 3) key products) = Returned v"
  shows "makeRequest h api key products 0 w =
      (Inr v, \<lparr>ncalls = ncalls w + 4, waits = waits w @ [2000, 4000, 8000]\<rparr>)"
proof -
  have a: "api (Suc (ncalls w)) key products = FetchResponse 429 (Inr b1)"
    "api (Suc (Suc (ncalls w))) key products = FetchResponse 429 (Inr b2)"
    "ds_try h (Suc (Suc (Suc 0))) (api (Suc (Suc (Suc (ncalls w)))) key products) = Returned v"
    using assms by (simp_all add: numeral_3_eq_3)
  show ?thesis
    apply (subst makeRequest.simps, simp add: assms(1) ds_try_429 sent_def delay_def)
    apply (subst makeRequest.simps, simp add: a ds_try_429 sent_def delay_def)
    apply (subst makeRequest.simps, simp add: a ds_try_429 sent_def delay_def)
    apply (subst makeRequest.simps, simp add: a sent_def delay_def)
    done
qed

lemma ds_try_ok:
  assumes "response_ok st" "message_content h data = Inr content"
    "JSON_parse h (extract_array content) = Inr v"
  shows "ds_try h attempt (FetchResponse st (Inr data)) = Returned v"
  using assms by (simp add: ds_try_def and_then_def)

lemma deepseek_caught_retry:
  assumes "ds_try h attempt (api (ncalls w) key products) = Thrown e" "attempt < 2"
  shows "makeRequest h api key products attempt w =
         makeRequest h api key products (attempt + 1) (delay 2000 (sent w))"
  using assms by (subst makeRequest.simps) simp

lemma deepseek_caught_throw:
  assumes "ds_try h attempt (api (ncalls w) key products) = Thrown e" "\<not> attempt < 2"
  shows "makeRequest h api key products attempt w = (Inl e, sent w)"
  using assms by (subst makeRequest.simps) simp

lemma deepseek_flat_retries:
  assumes "\<forall>n a. ds_try h a (api n key products) = Thrown (errs n)"
  shows "makeRequest h api key products 0 w =
      (Inl (errs (ncalls w + 2)), \<lparr>ncalls = ncalls w + 3, waits = waits w @ [2000, 2000]\<rparr>)"
  apply (subst makeRequest.simps, simp add: assms sent_def delay_def)
  apply (subst makeRequest.simps, simp add: assms sent_def delay_def)
  apply (subst makeRequest.simps, simp add: assms sent_def delay_def)
  done

lemma message_content_completion: "message_content h (completion c) = Inr (trim c)"
  by (simp add: message_content_def completion_def and_then_def jprop_def jindex0_def asc_def)

text \<open>
  C1 (as amended).  A call whose every attempt is answered by a rate-limit error
  (status 429) is attempted 3 times by the Gemini adapter (waits of 2000 and 4000 ms)
  and 4 times by the DeepSeek adapter when the 429 responses carry a readable body
  (waits of 2000, 4000 and 8000 ms); then the adapter throws its fatal error.  A call that
  is rate-limited until the last allowed attempt and succeeds there (the third for
  Gemini, the fourth for DeepSeek) returns the parsed value and no error.
\<close>

theorem retry_ceiling:
  "((\<forall>n. gapi n products = GenReject (gerrs n) \<and> estatus (gerrs n) = Some 429) \<longrightarrow>
      generateWithRetry h gapi products 3 w =
        (Inl (Some (gerrs (ncalls w + 2))),
         \<lparr>ncalls = ncalls w + 3, waits = waits w @ [2000, 4000]\<rparr>) \<and>
      processProductsBatch h gapi products w =
        (Inl gemini_failure, \<lparr>ncalls = ncalls w + 3, waits = waits w @ [2000, 4000]\<rparr>)) \<and>
   ((gapi2 (ncalls w) products = GenReject e0 \<and> estatus e0 = Some 429 \<and>
     gapi2 (ncalls w + 1) products = GenReject e1 \<and> estatus e1 = Some 429 \<and>
     gapi2 (ncalls w + 2) products = GenResponse (Some reply) \<and>
     JSON_parse h (trim reply) = Inr v) \<longrightarrow>
      generateWithRetry h gapi2 products 3 w =
        (Inr v, \<lparr>ncalls = ncalls w + 3, waits = waits w @ [2000, 4000]\<rparr>)) \<and>
   ((\<forall>n. dapi n key products = FetchResponse 429 (Inr (bodies n))) \<longrightarrow>
      makeRequest h dapi key products 0 w =
        (Inl (http_error h 429 (bodies (ncalls w + 3))),
         \<lparr>ncalls = ncalls w + 4, waits = waits w @ [2000, 4000, 8000]\<rparr>) \<and>
      processProductsWithDeepSeek h dapi products key w =
        (Inl (deepseek_failure (http_error h 429 (bodies (ncalls w + 3)))),
         \<lparr>ncalls = ncalls w + 4, waits = waits w @ [2000, 4000, 8000]\<rparr>)) \<and>
   ((dapi2 (ncalls w) key products = FetchResponse 429 (Inr b0) \<and>
     dapi2 (ncalls w + 1) key products = FetchResponse 429 (Inr b1) \<and>
     dapi2 (ncalls w + 2) key products = FetchResponse 429 (Inr b2) \<and>
     dapi2 (ncalls w + 3) key products = FetchResponse st (Inr data) \<and> response_ok st \<and>
     message_content h data = Inr content \<and>
     JSON_parse h (extract_array content) = Inr v2) \<longrightarrow>
      makeRequest h dapi2 key products 0 w =
        (Inr v2, \<lparr>ncalls = ncalls w + 4, waits = waits w @ [2000, 4000, 8000]\<rparr>))"
proof (intro conjI impI)
  assume a: "\<forall>n. gapi n products = GenReject (gerrs n) \<and> estatus (gerrs n) = Some 429"
  show g: "generateWithRetry h gapi products 3 w =
        (Inl (Some (gerrs (ncalls w + 2))),
         \<lparr>ncalls = ncalls w + 3, waits = waits w @ [2000, 4000]\<rparr>)"
    using a by (rule gemini_always_429)
  show "processProductsBatch h gapi products w =
        (Inl gemini_failure, \<lparr>ncalls = ncalls w + 3, waits = waits w @ [2000, 4000]\<rparr>)"
    by (simp add: processProductsBatch_def g)
next
  assume "gapi2 (ncalls w) products = GenReject e0 \<and> estatus e0 = Some 429 \<and>
     gapi2 (ncalls w + 1) products = GenReject e1 \<and> estatus e1 = Some 429 \<and>
     gapi2 (ncalls w + 2) products = GenResponse (Some reply) \<and>
     JSON_parse h (trim reply) = Inr v"
  then show "generateWithRetry h gapi2 products 3 w =
        (Inr v, \<lparr>ncalls = ncalls w + 3, waits = waits w @ [2000, 4000]\<rparr>)"
    using gemini_third_attempt [of gapi2 w products e0 e1 reply h v] by blast
next
  assume a: "\<forall>n. dapi n key products = FetchResponse 429 (Inr (bodies n))"
  show m: "makeRequest h dapi key products 0 w =
        (Inl (http_error h 429 (bodies (ncalls w + 3))),
         \<lparr>ncalls = ncalls w + 4, waits = waits w @ [2000, 4000, 8000]\<rparr>)"
    using a by (rule deepseek_always_429)
  show "processProductsWithDeepSeek h dapi products key w =
        (Inl (deepseek_failure (http_error h 429 (bodies (ncalls w + 3)))),
         \<lparr>ncalls = ncalls w + 4, waits = waits w @ [2000, 4000, 8000]\<rparr>)"
    by (simp add: processProductsWithDeepSeek_def m)
next
  assume a: "dapi2 (ncalls w) key products = FetchResponse 429 (Inr b0) \<and>
     dapi2 (ncalls w + 1) key products = FetchResponse 429 (Inr b1) \<and>
     dapi2 (ncalls w + 2) key products = FetchResponse 429 (Inr b2) \<and>
     dapi2 (ncalls w + 3) key products = FetchResponse st (Inr data) \<and> response_ok st \<and>
     message_content h data = Inr content \<and>
     JSON_parse h (extract_array content) = Inr v2"
  then have "ds_try h 3 (dapi2 (ncalls w + 3) key products) = Returned v2"
    by (simp add: ds_try_ok)
  then show "makeRequest h dapi2 key products 0 w =
        (Inr v2, \<lparr>ncalls = ncalls w + 4, waits = waits w @ [2000, 4000, 8000]\<rparr>)"
    using a deepseek_fourth_attempt [of dapi2 w key products b0 b1 b2 h v2] by blast
qed

theorem retry_ceiling_witness:
  "processProductsBatch sample_host (\<lambda>n p. GenReject too_many_requests) [] fresh =
     (Inl gemini_failure, \<lparr>ncalls = 3, waits = [2000, 4000]\<rparr>) \<and>
   generateWithRetry sample_host
       (\<lambda>n p. if n < 2 then GenReject too_many_requests else GenResponse (Some (asc '' [] '')))
       ([] :: ProductInput list) 3 fresh =
     (Inr (JArr []), \<lparr>ncalls = 3, waits = [2000, 4000]\<rparr>) \<and>
   processProductsWithDeepSeek sample_host (\<lambda>n k p. FetchResponse 429 (Inr (JObj []))) []
       (asc ''sk-1'') fresh =
     (Inl (deepseek_failure (new_Error (asc ''HTTP error! status: 429''))),
      \<lparr>ncalls = 4, waits = [2000, 4000, 8000]\<rparr>) \<and>
   makeRequest sample_host
       (\<lambda>n k p. if n < 3 then FetchResponse 429 (Inr (JObj []))
                 else FetchResponse 200 (Inr (completion (asc ''[]''))))
       (asc ''sk-1'') [] 0 fresh =
     (Inr (JArr []), \<lparr>ncalls = 4, waits = [2000, 4000, 8000]\<rparr>)"
proof -
  have tr: "trim (asc '' [] '') = asc ''[]''" "trim (asc ''[]'') = asc ''[]''"
    by (simp_all add: trim_def is_ws_def asc_def)
  have ex: "extract_array (asc ''[]'') = asc ''[]''"
    by (simp add: extract_array_def substring_def indexOf_def lastIndexOf_def asc_def
        LBRACK_def RBRACK_def)
  have p: "JSON_parse sample_host (asc ''[]'') = Inr (JArr [])"
    by (simp add: sample_host_def asc_def)
  have he: "http_error sample_host 429 (JObj []) = new_Error (asc ''HTTP error! status: 429'')"
    by (simp add: http_error_def jprop_def opt_prop_def truthy_def show_nat.simps asc_def)
  have s: "estatus too_many_requests = Some 429"
    by (simp add: too_many_requests_def)
  note T = retry_ceiling [where h = sample_host and w = fresh and products = "[]"
      and key = "asc ''sk-1''"
      and gapi = "\<lambda>n p. GenReject too_many_requests" and gerrs = "\<lambda>n. too_many_requests"
      and ?gapi2.0 = "\<lambda>n p. if n < 2 then GenReject too_many_requests
                             else GenResponse (Some (asc '' [] ''))"
      and ?e0.0 = too_many_requests and ?e1.0 = too_many_requests
      and reply = "asc '' [] ''" and v = "JArr []"
      and dapi = "\<lambda>n k p. FetchResponse 429 (Inr (JObj []))" and bodies = "\<lambda>n. JObj []"
      and ?dapi2.0 = "\<lambda>n k p. if n < 3 then FetchResponse 429 (Inr (JObj []))
                             else FetchResponse 200 (Inr (completion (asc ''[]'')))"
      and ?b0.0 = "JObj []" and ?b1.0 = "JObj []" and ?b2.0 = "JObj []"
      and st = 200 and data = "completion (asc ''[]'')" and content = "asc ''[]''"
      and ?v2.0 = "JArr []"]
  show ?thesis
    using T by (simp add: fresh_def s tr ex p he message_content_completion response_ok_def)
qed

text \<open>
  C1 as stated fails for the second adapter: when every response is a 429 with a
  readable body, \<open>makeRequest\<close> sends four requests, not two (and not three).
\<close>

theorem retry_ceiling_deepseek_counterexample:
  "makeRequest sample_host (\<lambda>n k p. FetchResponse 429 (Inr (JObj []))) (asc ''sk-1'') [] 0 fresh =
     (Inl (new_Error (asc ''HTTP error! status: 429'')),
      \<lparr>ncalls = 4, waits = [2000, 4000, 8000]\<rparr>)"
proof -
  have he: "http_error sample_host 429 (JObj []) = new_Error (asc ''HTTP error! status: 429'')"
    by (simp add: http_error_def jprop_def opt_prop_def truthy_def show_nat.simps asc_def)
  show ?thesis
    using deepseek_always_429 [of "\<lambda>n k p. FetchResponse 429 (Inr (JObj []))" "asc ''sk-1''" "[]"
        "\<lambda>n. JObj []" sample_host fresh]
    by (simp add: fresh_def he)
qed

text \<open>
  C5 (as amended).  A failure that is not classified as rate-limit ends the Gemini retry
  loop at once: the error is thrown after that attempt, with no wait.  In the DeepSeek
  adapter an exception thrown in the \<open>try\<close> is retried after a flat 2000 ms while the
  attempt index is below 2, and thrown on otherwise; so a call whose every attempt fails
  outside the rate-limit branch is attempted three times (two flat waits) before the last
  error is thrown.
\<close>

theorem non_rate_limit_failure:
  "((attempt < maxRetries \<and> gen_try h (gapi (ncalls w) prompt) = Inl e \<and> \<not> isRateLimit e) \<longrightarrow>
      gen_loop h gapi prompt maxRetries attempt lastError w = (Inl (Some e), sent w)) \<and>
   ((ds_try h a1 (dapi (ncalls w) key products) = Thrown e1 \<and> a1 < 2) \<longrightarrow>
      makeRequest h dapi key products a1 w =
        makeRequest h dapi key products (a1 + 1) (delay 2000 (sent w))) \<and>
   ((ds_try h a2 (dapi (ncalls w) key products) = Thrown e2 \<and> \<not> a2 < 2) \<longrightarrow>
      makeRequest h dapi key products a2 w = (Inl e2, sent w)) \<and>
   ((\<forall>n a. ds_try h a (dapi2 n key products) = Thrown (errs n)) \<longrightarrow>
      makeRequest h dapi2 key products 0 w =
        (Inl (errs (ncalls w + 2)), \<lparr>ncalls = ncalls w + 3, waits = waits w @ [2000, 2000]\<rparr>))"
  using gemini_no_retry [of attempt maxRetries h gapi w prompt e lastError]
    deepseek_caught_retry [of h a1 dapi w key products e1]
    deepseek_caught_throw [of h a2 dapi w key products e2]
    deepseek_flat_retries [of h dapi2 key products errs w]
  by blast

theorem non_rate_limit_failure_witness:
  "gen_loop sample_host (\<lambda>n p. GenReject connection_lost) () 3 0 None fresh =
     (Inl (Some connection_lost), \<lparr>ncalls = 1, waits = []\<rparr>) \<and>
   makeRequest sample_host (\<lambda>n k p. FetchReject connection_lost) (asc ''sk-1'') [] 1 fresh =
     makeRequest sample_host (\<lambda>n k p. FetchReject connection_lost) (asc ''sk-1'') [] 2
       \<lparr>ncalls = 1, waits = [2000]\<rparr> \<and>
   makeRequest sample_host (\<lambda>n k p. FetchReject connection_lost) (asc ''sk-1'') [] 2 fresh =
     (Inl connection_lost, \<lparr>ncalls = 1, waits = []\<rparr>) \<and>
   makeRequest sample_host (\<lambda>n k p. FetchReject connection_lost) (asc ''sk-1'') [] 0 fresh =
     (Inl connection_lost, \<lparr>ncalls = 3, waits = [2000, 2000]\<rparr>)"
proof -
  have nr: "\<not> isRateLimit connection_lost"
    by (simp add: isRateLimit_def connection_lost_def asc_def)
  note A = non_rate_limit_failure [where h = sample_host and w = fresh and attempt = 0
      and maxRetries = 3 and lastError = None and prompt = "()" and e = connection_lost
      and gapi = "\<lambda>n p. GenReject connection_lost"
      and dapi = "\<lambda>n k p. FetchReject connection_lost" and key = "asc ''sk-1''"
      and products = "[]" and ?a1.0 = 1 and ?e1.0 = connection_lost
      and ?a2.0 = 2 and ?e2.0 = connection_lost
      and ?dapi2.0 = "\<lambda>n k p. FetchReject connection_lost" and errs = "\<lambda>n. connection_lost"]
  show ?thesis
    using A nr by (simp add: gen_try_def ds_try_def fresh_def sent_def delay_def numeral_2_eq_2)
qed

text \<open>
  C5 as stated fails for the DeepSeek adapter: when every attempt fails with a network
  error, the request is sent three times, that is retried twice, not once.
\<close>

theorem deepseek_retries_twice_counterexample:
  "makeRequest sample_host (\<lambda>n k p. FetchReject connection_lost) (asc ''sk-1'') [] 0 fresh =
     (Inl connection_lost, \<lparr>ncalls = 3, waits = [2000, 2000]\<rparr>)"
  using deepseek_flat_retries [of sample_host "\<lambda>n k p. FetchReject connection_lost" "asc ''sk-1''"
      "[]" "\<lambda>n. connection_lost" fresh]
  by (simp add: ds_try_def fresh_def)

section \<open>Reconciliation and response shapes\<close>

lemma jprop_defined:
  "res \<noteq> JNull \<Longrightarrow> res \<noteq> JUndefined \<Longrightarrow> jprop h res k = Inr (opt_prop res k)"
  by (cases res) (simp_all add: jprop_def opt_prop_def)

lemma find_original_defined:
  assumes "res \<noteq> JNull" "res \<noteq> JUndefined"
  shows "find_original h products res =
           Inr (List.find (\<lambda>p. JStr (sku p) = opt_prop res (asc ''sku'')) products)"
  by (induction products) (simp_all add: jprop_defined [OF assms])

lemma source_name_found: "chineseName p \<noteq> [] \<Longrightarrow> source_name (Some p) = chineseName p"
  by (simp add: source_name_def)

lemma source_name_reconciled:
  assumes "\<forall>p\<in>set products. chineseName p \<noteq> []"
  shows "source_name (List.find (\<lambda>p. JStr (sku p) = opt_prop res (asc ''sku'')) products)
           = reconciled_name products res"
proof (cases "List.find (\<lambda>p. JStr (sku p) = opt_prop res (asc ''sku'')) products")
  case None
  then show ?thesis by (simp add: reconciled_name_def source_name_def)
next
  case (Some p)
  then have "p \<in> set products" by (auto simp: find_Some_iff)
  then have "chineseName p \<noteq> []" using assms by blast
  then show ?thesis using Some by (simp add: reconciled_name_def source_name_found)
qed

lemma gemini_entry_record:
  assumes "\<forall>p\<in>set products. chineseName p \<noteq> []" "res \<noteq> JNull" "res \<noteq> JUndefined"
  shows "gemini_entry h products res =
           Inr (JObj (set_prop (asc ''chineseName'') (JStr (reconciled_name products res))
                        (spread res)))"
  using assms
  by (simp add: gemini_entry_def find_original_defined source_name_reconciled)

lemma deepseek_entry_record:
  assumes "\<forall>p\<in>set products. chineseName p \<noteq> []" "res \<noteq> JNull" "res \<noteq> JUndefined"
  shows "deepseek_entry h products res =
           Inr (JObj [(asc ''sku'', opt_prop res (asc ''sku'')),
                      (asc ''chineseName'', JStr (reconciled_name products res)),
                      (asc ''russianName'', opt_prop res (asc ''russianName'')),
                      (asc ''russianDescription'', opt_prop res (asc ''russianDescription'')),
                      (asc ''backTranslation'', opt_prop res (asc ''backTranslation''))])"
  using assms
  by (simp add: deepseek_entry_def find_original_defined source_name_reconciled and_then_def
      jprop_defined)

lemma map_throwing_all:
  assumes "\<forall>x\<in>set xs. f x = Inr (g x)"
  shows "map_throwing f xs = Inr (map g xs)"
  using assms by (induction xs) simp_all

lemma map_of_set_prop: "map_of (set_prop k v fs) k = Some v"
  by (induction fs) auto

lemma single_ok_generate:
  assumes "api (ncalls w) prompt = GenResponse (Some t)" "JSON_parse h (trim t) = Inr v"
  shows "generateWithRetry h api prompt 3 w = (Inr v, sent w)"
  unfolding generateWithRetry_def using assms
  by (subst gen_loop.simps) (simp add: gen_try_def)

lemma single_ok_request:
  assumes "api (ncalls w) key products = FetchResponse 200 (Inr (completion c))"
    "JSON_parse h (extract_array (trim c)) = Inr v"
  shows "makeRequest h api key products 0 w = (Inr v, sent w)"
  using assms
  by (subst makeRequest.simps)
     (simp add: ds_try_def response_ok_def and_then_def message_content_completion)

lemma sample_texts:
  "trim two_entries = two_entries" "extract_array two_entries = two_entries"
  "trim null_entry = null_entry" "extract_array null_entry = null_entry"
  "trim products_number = products_number" "extract_array products_number = products_number"
  by (simp_all add: two_entries_def null_entry_def products_number_def trim_def is_ws_def
      extract_array_def substring_def indexOf_def lastIndexOf_def quoted_def asc_def
      LBRACK_def RBRACK_def DQUOTE_def)

lemma listing_host_parse:
  "JSON_parse listing_host two_entries =
     Inr (JArr [JObj [(asc ''sku'', JStr (asc ''A''))], JObj [(asc ''sku'', JStr (asc ''B''))]])"
  "JSON_parse listing_host null_entry = Inr (JArr [JNull])"
  "JSON_parse listing_host products_number = Inr (JObj [(asc ''products'', JNum 5)])"
  by (simp_all add: listing_host_def two_entries_def null_entry_def products_number_def
      quoted_def asc_def DQUOTE_def)

text \<open>
  C7 (as amended).  The batch holds input records as the data model has them (the name
  is not empty) and no entry of the response array is \<open>null\<close>.  Then each adapter raises no
  error and returns one result record per entry, in the order of the response: the
  Gemini adapter the entry's own properties with \<open>chineseName\<close> set, the DeepSeek adapter
  the five fields, and in both the \<open>chineseName\<close> is the name of the first input of the
  batch whose \<open>sku\<close> equals the entry's \<open>sku\<close>, and the two-character sentinel for
  "unknown" when the \<open>sku\<close> matches no input of the batch.
\<close>

theorem reconciliation_fallback:
  assumes "\<forall>p\<in>set products. chineseName p \<noteq> []"
    and "\<forall>res\<in>set entries. res \<noteq> JNull \<and> res \<noteq> JUndefined"
  shows "(generateWithRetry h gapi products 3 w = (Inr (JArr entries), w1) \<longrightarrow>
            processProductsBatch h gapi products w =
              (Inr (map (\<lambda>res. JObj (set_prop (asc ''chineseName'')
                                        (JStr (reconciled_name products res)) (spread res)))
                        entries), w1)) \<and>
         (makeRequest h dapi key products 0 w = (Inr (JArr entries), w2) \<longrightarrow>
            processProductsWithDeepSeek h dapi products key w =
              (Inr (map (\<lambda>res. JObj
                           [(asc ''sku'', opt_prop res (asc ''sku'')),
                            (asc ''chineseName'', JStr (reconciled_name products res)),
                            (asc ''russianName'', opt_prop res (asc ''russianName'')),
                            (asc ''russianDescription'', opt_prop res (asc ''russianDescription'')),
                            (asc ''backTranslation'', opt_prop res (asc ''backTranslation''))])
                        entries), w2)) \<and>
         (\<forall>res\<in>set entries.
            map_of (set_prop (asc ''chineseName'') (JStr (reconciled_name products res))
                      (spread res)) (asc ''chineseName'')
              = Some (JStr (reconciled_name products res)) \<and>
            ((\<forall>p\<in>set products. JStr (sku p) \<noteq> opt_prop res (asc ''sku'')) \<longrightarrow>
               reconciled_name products res = unknown_name) \<and>
            (\<forall>p. List.find (\<lambda>p. JStr (sku p) = opt_prop res (asc ''sku'')) products = Some p \<longrightarrow>
               reconciled_name products res = chineseName p))"
proof (intro conjI impI ballI allI)
  assume g: "generateWithRetry h gapi products 3 w = (Inr (JArr entries), w1)"
  have "map_throwing (gemini_entry h products) entries =
          Inr (map (\<lambda>res. JObj (set_prop (asc ''chineseName'')
                                   (JStr (reconciled_name products res)) (spread res))) entries)"
    using assms by (intro map_throwing_all) (simp add: gemini_entry_record)
  then show "processProductsBatch h gapi products w =
              (Inr (map (\<lambda>res. JObj (set_prop (asc ''chineseName'')
                                        (JStr (reconciled_name products res)) (spread res)))
                        entries), w1)"
    by (simp add: processProductsBatch_def g map_entries_def)
next
  assume m: "makeRequest h dapi key products 0 w = (Inr (JArr entries), w2)"
  have "map_throwing (deepseek_entry h products) entries =
          Inr (map (\<lambda>res. JObj
                           [(asc ''sku'', opt_prop res (asc ''sku'')),
                            (asc ''chineseName'', JStr (reconciled_name products res)),
                            (asc ''russianName'', opt_prop res (asc ''russianName'')),
                            (asc ''russianDescription'', opt_prop res (asc ''russianDescription'')),
                            (asc ''backTranslation'', opt_prop res (asc ''backTranslation''))])
                   entries)"
    using assms by (intro map_throwing_all) (simp add: deepseek_entry_record)
  then show "processProductsWithDeepSeek h dapi products key w =
              (Inr (map (\<lambda>res. JObj
                           [(asc ''sku'', opt_prop res (asc ''sku'')),
                            (asc ''chineseName'', JStr (reconciled_name products res)),
                            (asc ''russianName'', opt_prop res (asc ''russianName'')),
                            (asc ''russianDescription'', opt_prop res (asc ''russianDescription'')),
                            (asc ''backTranslation'', opt_prop res (asc ''backTranslation''))])
                        entries), w2)"
    by (simp add: processProductsWithDeepSeek_def m ds_results_def and_then_def map_entries_def)
next
  fix res
  show "map_of (set_prop (asc ''chineseName'') (JStr (reconciled_name products res))
                      (spread res)) (asc ''chineseName'')
              = Some (JStr (reconciled_name products res))"
    by (rule map_of_set_prop)
next
  fix res
  assume "\<forall>p\<in>set products. JStr (sku p) \<noteq> opt_prop res (asc ''sku'')"
  then have "List.find (\<lambda>p. JStr (sku p) = opt_prop res (asc ''sku'')) products = None"
    by (simp add: find_None_iff)
  then show "reconciled_name products res = unknown_name"
    by (simp add: reconciled_name_def)
next
  fix res p
  assume "List.find (\<lambda>p. JStr (sku p) = opt_prop res (asc ''sku'')) products = Some p"
  then show "reconciled_name products res = chineseName p"
    by (simp add: reconciled_name_def)
qed

theorem reconciliation_fallback_witness:
  "processProductsBatch listing_host (\<lambda>n p. GenResponse (Some two_entries))
       [\<lparr>sku = asc ''A'', chineseName = asc ''foo''\<rparr>] fresh =
     (Inr [JObj [(asc ''sku'', JStr (asc ''A'')), (asc ''chineseName'', JStr (asc ''foo''))],
           JObj [(asc ''sku'', JStr (asc ''B'')), (asc ''chineseName'', JStr unknown_name)]],
      \<lparr>ncalls = 1, waits = []\<rparr>) \<and>
   processProductsWithDeepSeek listing_host
       (\<lambda>n k p. FetchResponse 200 (Inr (completion two_entries)))
       [\<lparr>sku = asc ''A'', chineseName = asc ''foo''\<rparr>] (asc ''sk-1'') fresh =
     (Inr [JObj [(asc ''sku'', JStr (asc ''A'')), (asc ''chineseName'', JStr (asc ''foo'')),
                 (asc ''russianName'', JUndefined), (asc ''russianDescription'', JUndefined),
                 (asc ''backTranslation'', JUndefined)],
           JObj [(asc ''sku'', JStr (asc ''B'')), (asc ''chineseName'', JStr unknown_name),
                 (asc ''russianName'', JUndefined), (asc ''russianDescription'', JUndefined),
                 (asc ''backTranslation'', JUndefined)]],
      \<lparr>ncalls = 1, waits = []\<rparr>)"
proof -
  let ?batch = "[\<lparr>sku = asc ''A'', chineseName = asc ''foo''\<rparr>]"
  let ?entries = "[JObj [(asc ''sku'', JStr (asc ''A''))], JObj [(asc ''sku'', JStr (asc ''B''))]]"
  have g: "generateWithRetry listing_host (\<lambda>n p. GenResponse (Some two_entries)) ?batch 3 fresh
             = (Inr (JArr ?entries), \<lparr>ncalls = 1, waits = []\<rparr>)"
    using single_ok_generate [where api = "\<lambda>n p. GenResponse (Some two_entries)" and w = fresh
        and prompt = ?batch and t = two_entries and h = listing_host and v = "JArr ?entries"]
    by (simp add: sample_texts listing_host_parse sent_def fresh_def)
  have m: "makeRequest listing_host (\<lambda>n k p. FetchResponse 200 (Inr (completion two_entries)))
             (asc ''sk-1'') ?batch 0 fresh = (Inr (JArr ?entries), \<lparr>ncalls = 1, waits = []\<rparr>)"
    using single_ok_request [where api = "\<lambda>n k p. FetchResponse 200 (Inr (completion two_entries))"
        and w = fresh and key = "asc ''sk-1''" and products = ?batch and c = two_entries
        and h = listing_host and v = "JArr ?entries"]
    by (simp add: sample_texts listing_host_parse sent_def fresh_def)
  have n: "reconciled_name ?batch (JObj [(asc ''sku'', JStr (asc ''A''))]) = asc ''foo''"
    "reconciled_name ?batch (JObj [(asc ''sku'', JStr (asc ''B''))]) = unknown_name"
    by (simp_all add: reconciled_name_def opt_prop_def asc_def)
  note T = reconciliation_fallback [where products = ?batch and entries = ?entries
      and h = listing_host and gapi = "\<lambda>n p. GenResponse (Some two_entries)" and w = fresh
      and ?w1.0 = "\<lparr>ncalls = 1, waits = []\<rparr>"
      and dapi = "\<lambda>n k p. FetchResponse 200 (Inr (completion two_entries))"
      and key = "asc ''sk-1''" and ?w2.0 = "\<lparr>ncalls = 1, waits = []\<rparr>"]
  have names: "\<forall>p\<in>set ?batch. chineseName p \<noteq> []"
    by (simp add: asc_def)
  have ents: "\<forall>res\<in>set ?entries. res \<noteq> JNull \<and> res \<noteq> JUndefined"
    by simp
  have A: "processProductsBatch listing_host (\<lambda>n p. GenResponse (Some two_entries)) ?batch fresh =
     (Inr (map (\<lambda>res. JObj (set_prop (asc ''chineseName'')
                               (JStr (reconciled_name ?batch res)) (spread res))) ?entries),
      \<lparr>ncalls = 1, waits = []\<rparr>)"
    using T [OF names ents, THEN conjunct1] g by blast
  have B: "processProductsWithDeepSeek listing_host
       (\<lambda>n k p. FetchResponse 200 (Inr (completion two_entries))) ?batch (asc ''sk-1'') fresh =
     (Inr (map (\<lambda>res. JObj
                  [(asc ''sku'', opt_prop res (asc ''sku'')),
                   (asc ''chineseName'', JStr (reconciled_name ?batch res)),
                   (asc ''russianName'', opt_prop res (asc ''russianName'')),
                   (asc ''russianDescription'', opt_prop res (asc ''russianDescription'')),
                   (asc ''backTranslation'', opt_prop res (asc ''backTranslation''))]) ?entries),
      \<lparr>ncalls = 1, waits = []\<rparr>)"
    using T [OF names ents, THEN conjunct2, THEN conjunct1] m by blast
  have op: "opt_prop (JObj [(asc ''sku'', s)]) (asc ''sku'') = s"
    "opt_prop (JObj [(asc ''sku'', s)]) (asc ''russianName'') = JUndefined"
    "opt_prop (JObj [(asc ''sku'', s)]) (asc ''russianDescription'') = JUndefined"
    "opt_prop (JObj [(asc ''sku'', s)]) (asc ''backTranslation'') = JUndefined" for s
    by (simp_all add: opt_prop_def asc_def)
  have ne: "asc ''sku'' \<noteq> asc ''chineseName''"
    by (simp add: asc_def)
  show ?thesis
    unfolding A B by (simp add: n op spread_def ne)
qed

text \<open>
  C7 as stated fails on an entry that is \<open>null\<close>: reading \<open>res.sku\<close> throws, and each
  adapter ends with its wrapped error instead of a result record.
\<close>

theorem null_entry_counterexample:
  "processProductsBatch listing_host (\<lambda>n p. GenResponse (Some null_entry))
       [\<lparr>sku = asc ''A'', chineseName = asc ''foo''\<rparr>] fresh =
     (Inl gemini_failure, \<lparr>ncalls = 1, waits = []\<rparr>) \<and>
   processProductsWithDeepSeek listing_host
       (\<lambda>n k p. FetchResponse 200 (Inr (completion null_entry)))
       [\<lparr>sku = asc ''A'', chineseName = asc ''foo''\<rparr>] (asc ''sk-1'') fresh =
     (Inl (deepseek_failure (TypeError listing_host)), \<lparr>ncalls = 1, waits = []\<rparr>)"
proof -
  let ?batch = "[\<lparr>sku = asc ''A'', chineseName = asc ''foo''\<rparr>]"
  have g: "generateWithRetry listing_host (\<lambda>n p. GenResponse (Some null_entry)) ?batch 3 fresh
             = (Inr (JArr [JNull]), sent fresh)"
    by (rule single_ok_generate [where t = null_entry])
       (simp_all add: sample_texts listing_host_parse)
  have m: "makeRequest listing_host (\<lambda>n k p. FetchResponse 200 (Inr (completion null_entry)))
             (asc ''sk-1'') ?batch 0 fresh = (Inr (JArr [JNull]), sent fresh)"
    by (rule single_ok_request [where c = null_entry])
       (simp_all add: sample_texts listing_host_parse)
  show ?thesis
    unfolding processProductsBatch_def processProductsWithDeepSeek_def g m
    by (simp add: map_entries_def gemini_entry_def deepseek_entry_def ds_results_def
        and_then_def jprop_def sent_def fresh_def)
qed

lemma ds_results_non_array:
  assumes "rawResults \<noteq> JNull" "rawResults \<noteq> JUndefined" "\<forall>rs. rawResults \<noteq> JArr rs"
  shows "ds_results h rawResults =
           Inr (if truthy (opt_prop rawResults (asc ''products''))
                then opt_prop rawResults (asc ''products'') else JArr [])"
  using assms
  by (cases rawResults) (simp_all add: ds_results_def and_then_def jprop_def opt_prop_def)

text \<open>
  C10 (as amended).  When the value returned by \<open>makeRequest\<close> is not an array and not
  \<open>null\<close>, no parse error is raised and the result list is its \<open>products\<close> field if that
  field is truthy and the empty list if the field is absent or falsy; the adapter then
  maps the result list as it maps a top-level array.  So with no \<open>products\<close> field, or a
  falsy one, the adapter returns the empty result list; and with a \<open>products\<close> field
  that is truthy but not an array, mapping it throws and the adapter ends with its
  wrapped error.
\<close>

theorem non_array_body:
  assumes "rawResults \<noteq> JNull" "rawResults \<noteq> JUndefined" "\<forall>rs. rawResults \<noteq> JArr rs"
    and "makeRequest h api key products 0 w = (Inr rawResults, w')"
  shows "ds_results h rawResults =
           Inr (if truthy (opt_prop rawResults (asc ''products''))
                then opt_prop rawResults (asc ''products'') else JArr []) \<and>
         processProductsWithDeepSeek h api products key w =
           (case map_entries h (deepseek_entry h products)
                   (if truthy (opt_prop rawResults (asc ''products''))
                    then opt_prop rawResults (asc ''products'') else JArr []) of
              Inl e \<Rightarrow> (Inl (deepseek_failure e), w')
            | Inr rs \<Rightarrow> (Inr rs, w')) \<and>
         (\<not> truthy (opt_prop rawResults (asc ''products'')) \<longrightarrow>
            processProductsWithDeepSeek h api products key w = (Inr [], w')) \<and>
         (truthy (opt_prop rawResults (asc ''products'')) \<and>
          (\<forall>ps. opt_prop rawResults (asc ''products'') \<noteq> JArr ps) \<longrightarrow>
            processProductsWithDeepSeek h api products key w
              = (Inl (deepseek_failure (TypeError h)), w'))"
proof -
  let ?v = "opt_prop rawResults (asc ''products'')"
  have r: "ds_results h rawResults = Inr (if truthy ?v then ?v else JArr [])"
    using assms(1-3) by (rule ds_results_non_array)
  have p: "processProductsWithDeepSeek h api products key w =
           (case map_entries h (deepseek_entry h products) (if truthy ?v then ?v else JArr []) of
              Inl e \<Rightarrow> (Inl (deepseek_failure e), w')
            | Inr rs \<Rightarrow> (Inr rs, w'))"
    by (simp add: processProductsWithDeepSeek_def assms(4) r and_then_def)
  have e: "\<not> truthy ?v \<longrightarrow> processProductsWithDeepSeek h api products key w = (Inr [], w')"
    unfolding p by (simp add: map_entries_def)
  have t: "truthy ?v \<and> (\<forall>ps. ?v \<noteq> JArr ps) \<longrightarrow>
             processProductsWithDeepSeek h api products key w
               = (Inl (deepseek_failure (TypeError h)), w')"
    unfolding p by (cases ?v) (simp_all add: map_entries_def)
  show ?thesis
    using r p e t by blast
qed

theorem non_array_body_witness:
  "processProductsWithDeepSeek sample_host
       (\<lambda>n k p. FetchResponse 200 (Inr (completion (asc ''{}'')))) [] (asc ''sk-1'') fresh =
     (Inr [], \<lparr>ncalls = 1, waits = []\<rparr>) \<and>
   ds_results listing_host (JObj [(asc ''products'', JNum 5)]) = Inr (JNum 5) \<and>
   processProductsWithDeepSeek listing_host
       (\<lambda>n k p. FetchResponse 200 (Inr (completion products_number))) [] (asc ''sk-1'') fresh =
     (Inl (deepseek_failure (TypeError listing_host)), \<lparr>ncalls = 1, waits = []\<rparr>)"
proof -
  have e: "extract_array (trim (asc ''{}'')) = asc ''{}''"
    by (simp add: extract_array_def trim_def is_ws_def asc_def LBRACK_def RBRACK_def)
  have "makeRequest sample_host (\<lambda>n k p. FetchResponse 200 (Inr (completion (asc ''{}''))))
             (asc ''sk-1'') [] 0 fresh = (Inr (JObj []), sent fresh)"
    by (rule single_ok_request [where c = "asc ''{}''"])
       (simp_all add: e, simp add: sample_host_def asc_def)
  then have m: "makeRequest sample_host (\<lambda>n k p. FetchResponse 200 (Inr (completion (asc ''{}''))))
             (asc ''sk-1'') [] 0 fresh = (Inr (JObj []), \<lparr>ncalls = 1, waits = []\<rparr>)"
    by (simp add: sent_def fresh_def)
  have "makeRequest listing_host (\<lambda>n k p. FetchResponse 200 (Inr (completion products_number)))
             (asc ''sk-1'') [] 0 fresh = (Inr (JObj [(asc ''products'', JNum 5)]), sent fresh)"
    by (rule single_ok_request [where c = products_number])
       (simp_all add: sample_texts listing_host_parse)
  then have m5: "makeRequest listing_host
             (\<lambda>n k p. FetchResponse 200 (Inr (completion products_number)))
             (asc ''sk-1'') [] 0 fresh
               = (Inr (JObj [(asc ''products'', JNum 5)]), \<lparr>ncalls = 1, waits = []\<rparr>)"
    by (simp add: sent_def fresh_def)
  have v: "opt_prop (JObj []) (asc ''products'') = JUndefined"
    "opt_prop (JObj [(asc ''products'', JNum 5)]) (asc ''products'') = JNum 5"
    by (simp_all add: opt_prop_def)
  note E = non_array_body [where rawResults = "JObj []" and h = sample_host
        and api = "\<lambda>n k p. FetchResponse 200 (Inr (completion (asc ''{}'')))"
        and key = "asc ''sk-1''" and products = "[]" and w = fresh
        and w' = "\<lparr>ncalls = 1, waits = []\<rparr>", OF _ _ _ m]
  note N = non_array_body [where rawResults = "JObj [(asc ''products'', JNum 5)]"
        and h = listing_host
        and api = "\<lambda>n k p. FetchResponse 200 (Inr (completion products_number))"
        and key = "asc ''sk-1''" and products = "[]" and w = fresh
        and w' = "\<lparr>ncalls = 1, waits = []\<rparr>", OF _ _ _ m5]
  have "processProductsWithDeepSeek sample_host
       (\<lambda>n k p. FetchResponse 200 (Inr (completion (asc ''{}'')))) [] (asc ''sk-1'') fresh =
     (Inr [], \<lparr>ncalls = 1, waits = []\<rparr>)"
    using E [THEN conjunct2, THEN conjunct2, THEN conjunct1] by (simp add: v truthy_def)
  moreover have "ds_results listing_host (JObj [(asc ''products'', JNum 5)]) = Inr (JNum 5)"
    using N [THEN conjunct1] by (simp add: v truthy_def)
  moreover have "processProductsWithDeepSeek listing_host
       (\<lambda>n k p. FetchResponse 200 (Inr (completion products_number))) [] (asc ''sk-1'') fresh =
     (Inl (deepseek_failure (TypeError listing_host)), \<lparr>ncalls = 1, waits = []\<rparr>)"
    using N [THEN conjunct2, THEN conjunct2, THEN conjunct2] by (simp add: v truthy_def)
  ultimately show ?thesis by blast
qed

text \<open>
  C10 as stated fails on the body \<open>null\<close>, which is valid JSON and not an array: reading
  \<open>rawResults.products\<close> throws, and the adapter ends with its wrapped error instead of
  the empty result list.
\<close>

theorem null_body_counterexample:
  "processProductsWithDeepSeek sample_host
       (\<lambda>n k p. FetchResponse 200 (Inr (completion (asc ''null'')))) [] (asc ''sk-1'') fresh =
     (Inl (deepseek_failure (TypeError sample_host)), \<lparr>ncalls = 1, waits = []\<rparr>)"
proof -
  have e: "extract_array (trim (asc ''null'')) = asc ''null''"
    by (simp add: extract_array_def trim_def is_ws_def asc_def LBRACK_def RBRACK_def)
  have "makeRequest sample_host (\<lambda>n k p. FetchResponse 200 (Inr (completion (asc ''null''))))
             (asc ''sk-1'') [] 0 fresh = (Inr JNull, sent fresh)"
    by (rule single_ok_request [where c = "asc ''null''"]) (simp_all add: e sample_host_def)
  then show ?thesis
    by (simp add: processProductsWithDeepSeek_def ds_results_def and_then_def jprop_def
        sent_def fresh_def)
qed

section \<open>CSV export\<close>

text \<open>
  C4 fails on the code: \<open>downloadCSV\<close> doubles the quotes of the three translated
  fields but writes \<open>sku\<close> and \<open>chineseName\<close> between quotes as they are.  Two different
  result lists then give the same file, so no parser can give back the original values
  of both.
\<close>

theorem csv_quote_collision:
  "quote_in_sku \<noteq> quote_in_name \<and>
   downloadCSV [quote_in_sku] = downloadCSV [quote_in_name] \<and>
   downloadCSV [quote_in_sku] =
     Some ([0xFEFF] @ csv_header @ [NL] @
           [DQUOTE] @ asc ''a'' @ [DQUOTE, COMMA, DQUOTE] @ asc ''b'' @ [DQUOTE, COMMA, DQUOTE] @
           asc ''c'' @ [DQUOTE, COMMA, DQUOTE] @ asc ''x'' @ [DQUOTE, COMMA, DQUOTE] @
           asc ''y'' @ [DQUOTE, COMMA, DQUOTE] @ asc ''z'' @ [DQUOTE])"
  by (simp add: quote_in_sku_def quote_in_name_def downloadCSV_def csv_row_def quoted_def
      double_quotes_def asc_def DQUOTE_def COMMA_def)

section \<open>The batch scheduler\<close>

lemma batch_loop_ds_eq:
  "batch_loop_ds ds key inputs i st w = batch_loop gem ds DeepSeek key inputs i st w"
proof (induction ds key inputs i st w rule: batch_loop_ds.induct)
  case (1 ds key inputs i st w)
  show ?case
    apply (subst batch_loop_ds.simps)
    apply (subst batch_loop.simps)
    using "1.IH" apply (auto simp: Let_def split: prod.splits sum.splits)
    done
qed

lemma batch_size_pos: "0 < batch_size p"
  by (simp add: batch_size_def)

lemma batch_loop_done:
  "\<not> i < length inputs \<Longrightarrow> batch_loop gem ds p key inputs i st w = (None, [], [], w)"
  by (subst batch_loop.simps) (simp add: Let_def)

lemma batch_loop_fail:
  assumes "i < length inputs"
    and "call_adapter gem ds p key (slice inputs i (i + batch_size p)) w = (Inl msg, w')"
  shows "batch_loop gem ds p key inputs i st w =
           (Some msg, pacing i st, [slice inputs i (i + batch_size p)], w')"
  using assms
  by (subst batch_loop.simps) (auto simp: Let_def batch_size_def call_adapter_def split: if_splits)

lemma batch_loop_ok:
  assumes "i < length inputs"
    and "call_adapter gem ds p key (slice inputs i (i + batch_size p)) w = (Inr rs, w')"
    and "st2 = append_results rs (last (st # pacing i st))"
    and "st3 = advance (length (slice inputs i (i + batch_size p))) st2"
    and "batch_loop gem ds p key inputs (i + batch_size p) st3 w' = (e, tr, bs, w'')"
  shows "batch_loop gem ds p key inputs i st w =
           (e, pacing i st @ [st2, st3] @ tr, slice inputs i (i + batch_size p) # bs, w'')"
  using assms
  by (subst batch_loop.simps) (auto simp: Let_def batch_size_def call_adapter_def split: if_splits)

lemma batch_loop_cases:
  assumes "batch_loop gem ds p key inputs i st w = (e, tr, bs, w'')"
  obtains
    (Done) "\<not> i < length inputs" "e = None" "tr = []" "bs = []" "w'' = w"
  | (Fail) msg where "i < length inputs" "e = Some msg" "tr = pacing i st"
      "bs = [slice inputs i (i + batch_size p)]"
      "call_adapter gem ds p key (slice inputs i (i + batch_size p)) w = (Inl msg, w'')"
  | (Ok) rs w' st2 st3 tr' bs' where "i < length inputs"
      "call_adapter gem ds p key (slice inputs i (i + batch_size p)) w = (Inr rs, w')"
      "st2 = append_results rs (last (st # pacing i st))"
      "st3 = advance (length (slice inputs i (i + batch_size p))) st2"
      "batch_loop gem ds p key inputs (i + batch_size p) st3 w' = (e, tr', bs', w'')"
      "tr = pacing i st @ [st2, st3] @ tr'" "bs = slice inputs i (i + batch_size p) # bs'"
proof (cases "i < length inputs")
  case False
  then show ?thesis using assms Done by (simp add: batch_loop_done)
next
  case True
  let ?b = "slice inputs i (i + batch_size p)"
  obtain r w' where c: "call_adapter gem ds p key ?b w = (r, w')"
    by (cases "call_adapter gem ds p key ?b w") auto
  show ?thesis
  proof (cases r)
    case (Inl msg)
    then show ?thesis using assms True c Fail [of msg] by (simp add: batch_loop_fail)
  next
    case (Inr rs)
    let ?st2 = "append_results rs (last (st # pacing i st))"
    let ?st3 = "advance (length ?b) ?st2"
    obtain e' tr' bs' w3 where rec:
      "batch_loop gem ds p key inputs (i + batch_size p) ?st3 w' = (e', tr', bs', w3)"
      by (metis prod_cases4)
    have "batch_loop gem ds p key inputs i st w =
           (e', pacing i st @ [?st2, ?st3] @ tr', ?b # bs', w3)"
      using batch_loop_ok [OF True _ refl refl rec] c Inr by simp
    then show ?thesis using assms Ok [of rs w' ?st2 ?st3 tr' bs'] c Inr rec True by simp
  qed
qed

lemma handleProcess_started:
  assumes "parseInput (rawInput st) \<noteq> []"
    and "\<not> (provider st = DeepSeek \<and> trim (deepSeekKey st) = [])"
  shows "handleProcess gem ds st w =
           started_run interrupted gem ds (provider st) (deepSeekKey st)
             (parseInput (rawInput st)) st w"
  using assms by (auto simp: handleProcess_def started_run_def Let_def)

lemma handleProcess_ds_started:
  assumes "trim (apiKey st) \<noteq> []" and "parseInput (rawInput st) \<noteq> []"
  shows "handleProcess_ds ds st w =
           started_run interrupted_ds gem ds DeepSeek (apiKey st) (parseInput (rawInput st)) st w"
  using assms
  by (simp add: handleProcess_ds_def started_run_def Let_def batch_loop_ds_eq [where gem = gem])

text \<open>
  C9.  A start request with an empty parsed input, or with a missing DeepSeek key when
  that backend is selected (two-backend variant) or is the only one (DeepSeek-only
  variant), is rejected with an alert: no adapter is called and, in every state the
  request passes through, the status record, the result list and the waiting flag are
  those from before the request.
\<close>

theorem rejected_start_changes_nothing:
  "((parseInput (rawInput st) = [] \<or> (provider st = DeepSeek \<and> trim (deepSeekKey st) = [])) \<longrightarrow>
      alert (handleProcess gem ds st w) \<noteq> None \<and>
      issued (handleProcess gem ds st w) = [] \<and>
      world (handleProcess gem ds st w) = w \<and>
      (\<forall>s\<in>set (st # trace (handleProcess gem ds st w)).
         status s = status st \<and> results s = results st \<and>
         isWaitingForNextBatch s = isWaitingForNextBatch st)) \<and>
   ((trim (apiKey st') = [] \<or> parseInput (rawInput st') = []) \<longrightarrow>
      alert (handleProcess_ds ds st' w) \<noteq> None \<and>
      issued (handleProcess_ds ds st' w) = [] \<and>
      world (handleProcess_ds ds st' w) = w \<and>
      trace (handleProcess_ds ds st' w) = [])"
  by (auto simp: handleProcess_def handleProcess_ds_def Let_def)

theorem rejected_start_changes_nothing_witness:
  "alert (handleProcess echo_adapter (\<lambda>b k. echo_adapter b) (gemini_state (asc ''no fields'')) 0)
     = Some alert_no_data \<and>
   trace (handleProcess echo_adapter (\<lambda>b k. echo_adapter b) (gemini_state (asc ''no fields'')) 0)
     = [] \<and>
   alert (handleProcess echo_adapter (\<lambda>b k. echo_adapter b)
            ((gemini_state one_line)\<lparr>provider := DeepSeek, deepSeekKey := asc ''  ''\<rparr>) 0)
     = Some alert_no_key \<and>
   map status (trace (handleProcess echo_adapter (\<lambda>b k. echo_adapter b)
            ((gemini_state one_line)\<lparr>provider := DeepSeek, deepSeekKey := asc ''  ''\<rparr>) 0))
     = [idle] \<and>
   issued (handleProcess echo_adapter (\<lambda>b k. echo_adapter b)
            ((gemini_state one_line)\<lparr>provider := DeepSeek, deepSeekKey := asc ''  ''\<rparr>) 0)
     = [] \<and>
   alert (handleProcess_ds (\<lambda>b k. echo_adapter b) (deepseek_state one_line []) 0)
     = Some alert_no_key_ds \<and>
   trace (handleProcess_ds (\<lambda>b k. echo_adapter b) (deepseek_state one_line []) 0) = []"
proof -
  have p0: "parseInput (asc ''no fields'') = []"
    by (simp add: parseInput_def parse_line_def part_trimmed_def trim_def is_ws_def asc_def
        TAB_def NL_def SP_def)
  have p1: "parseInput one_line = [ab]"
    by (simp add: parseInput_def parse_line_def part_trimmed_def trim_def is_ws_def asc_def
        TAB_def NL_def SP_def one_line_def ab_def)
  have k: "trim (asc ''  '') = []" "trim [] = []"
    by (simp_all add: trim_def is_ws_def asc_def)
  note A = rejected_start_changes_nothing [where st = "gemini_state (asc ''no fields'')"
      and gem = echo_adapter and ds = "\<lambda>b k. echo_adapter b" and w = 0
      and st' = "deepseek_state one_line []"]
  note B = rejected_start_changes_nothing [where
      st = "(gemini_state one_line)\<lparr>provider := DeepSeek, deepSeekKey := asc ''  ''\<rparr>"
      and gem = echo_adapter and ds = "\<lambda>b k. echo_adapter b" and w = 0
      and st' = "deepseek_state one_line []"]
  show ?thesis
    using A B
    by (simp add: gemini_state_def deepseek_state_def p0 p1 k handleProcess_def
        handleProcess_ds_def Let_def)
qed

lemma pacing_status: "s \<in> set (pacing i st) \<Longrightarrow> status s = status st"
  by (auto simp: pacing_def split: if_splits)

lemma pacing_results: "s \<in> set (pacing i st) \<Longrightarrow> results s = results st"
  by (auto simp: pacing_def split: if_splits)

lemma last_pacing_status [simp]:
  "pacing i st \<noteq> [] \<Longrightarrow> status (last (pacing i st)) = status st"
  by (simp add: pacing_def split: if_splits)

lemma last_pacing_results [simp]:
  "pacing i st \<noteq> [] \<Longrightarrow> results (last (pacing i st)) = results st"
  by (simp add: pacing_def split: if_splits)

lemma sorted_pacing [simp]: "sorted (map (\<lambda>s. completed (status s)) (pacing i st))"
  by (simp add: pacing_def)

lemma length_slice: "length (slice xs a (a + k)) = min k (length xs - a)"
  by (simp add: slice_def)

lemma ceil_step:
  fixes K :: nat
  assumes "i < n" "0 < K"
  shows "(n - i + K - 1) div K = Suc ((n - (i + K) + K - 1) div K)"
proof -
  obtain d where d: "n - i = Suc d" using assms(1) by (cases "n - i") auto
  have l: "n - i + K - 1 = d + K" using d by simp
  show ?thesis
  proof (cases "d < K - 1")
    case True
    then have "n - (i + K) = 0" using d by simp
    moreover have "d div K = 0" using True by simp
    ultimately show ?thesis unfolding l using assms(2) by (simp add: div_add_self2)
  next
    case False
    then have "n - (i + K) + K - 1 = d" using d assms(2) by simp
    then show ?thesis unfolding l using assms(2) by (simp add: div_add_self2)
  qed
qed

text \<open>The batches handed to the adapter from index \<open>i\<close> on are consecutive slices of
  the input; there are as many as the rest of the input needs when the loop ends
  normally, and at least one, and no more, when it ends by an exception.\<close>

lemma loop_issued:
  assumes "batch_loop gem ds p key inputs i st w = (e, tr, bs, w'')"
  shows "bs = map (\<lambda>m. slice inputs (i + m * batch_size p) (i + m * batch_size p + batch_size p))
                [0 ..< length bs] \<and>
         (e = None \<longrightarrow> length bs = (length inputs - i + batch_size p - 1) div batch_size p) \<and>
         (e \<noteq> None \<longrightarrow>
            bs \<noteq> [] \<and> length bs \<le> (length inputs - i + batch_size p - 1) div batch_size p)"
  using assms
proof (induction "length inputs - i" arbitrary: i st w e tr bs w'' rule: less_induct)
  case less
  let ?K = "batch_size p"
  have K: "0 < ?K" by (rule batch_size_pos)
  from less.prems show ?case
  proof (cases rule: batch_loop_cases)
    case Done
    then show ?thesis using K by auto
  next
    case (Fail msg)
    have "0 < (length inputs - i + ?K - 1) div ?K"
      using ceil_step [OF Fail(1) K] by simp
    then show ?thesis using Fail by auto
  next
    case (Ok rs w' st2 st3 tr' bs')
    have dec: "length inputs - (i + ?K) < length inputs - i"
      using Ok(1) K by auto
    note IH = less.hyps [OF dec Ok(5)]
    have shape: "bs' = map (\<lambda>m. slice inputs (i + ?K + m * ?K) (i + ?K + m * ?K + ?K))
                         [0 ..< length bs']"
      using IH by simp
    have "map (\<lambda>m. slice inputs (i + m * ?K) (i + m * ?K + ?K)) [0 ..< length bs]
            = slice inputs i (i + ?K) #
              map (\<lambda>m. slice inputs (i + Suc m * ?K) (i + Suc m * ?K + ?K)) [0 ..< length bs']"
      using Ok(7) by (simp add: map_upt_Suc del: upt_Suc)
    also have "\<dots> = slice inputs i (i + ?K) # bs'"
      using shape by (simp add: add.assoc add.commute add.left_commute)
    finally have one: "bs = map (\<lambda>m. slice inputs (i + m * ?K) (i + m * ?K + ?K)) [0 ..< length bs]"
      using Ok(7) by simp
    have ceil: "(length inputs - i + ?K - 1) div ?K
                  = Suc ((length inputs - (i + ?K) + ?K - 1) div ?K)"
      using Ok(1) K by (rule ceil_step)
    show ?thesis
      using one IH ceil Ok(7) by auto
  qed
qed

text \<open>The loop leaves \<open>total\<close>, \<open>error\<close> and \<open>isProcessing\<close> alone.\<close>

lemma loop_status_kept:
  assumes "batch_loop gem ds p key inputs i st w = (e, tr, bs, w'')"
  shows "\<forall>s\<in>set tr. total (status s) = total (status st) \<and> error (status s) = error (status st)
            \<and> isProcessing (status s) = isProcessing (status st)"
  using assms
proof (induction "length inputs - i" arbitrary: i st w e tr bs w'' rule: less_induct)
  case less
  let ?K = "batch_size p"
  have K: "0 < ?K" by (rule batch_size_pos)
  from less.prems show ?case
  proof (cases rule: batch_loop_cases)
    case Done
    then show ?thesis by simp
  next
    case (Fail msg)
    then show ?thesis by (auto simp: pacing_status)
  next
    case (Ok rs w' st2 st3 tr' bs')
    have dec: "length inputs - (i + ?K) < length inputs - i"
      using Ok(1) K by auto
    note IH = less.hyps [OF dec Ok(5)]
    have s2: "status st2 = status st"
      using Ok(3) by (simp add: append_results_def)
    have s3: "total (status st3) = total (status st)" "error (status st3) = error (status st)"
      "isProcessing (status st3) = isProcessing (status st)"
      using Ok(4) s2 by (simp_all add: advance_def)
    show ?thesis
      using IH s2 s3 Ok(6) by (auto simp: pacing_status)
  qed
qed

text \<open>Progress inside the loop: \<open>completed\<close> never decreases, stays below \<open>total\<close>, and
  ends at the number of inputs in the batches that completed (capped at \<open>total\<close>).\<close>

lemma loop_completed:
  assumes "batch_loop gem ds p key inputs i st w = (e, tr, bs, w'')"
    and "completed (status st) \<le> total (status st)"
  shows "(\<forall>s\<in>set tr. completed (status st) \<le> completed (status s) \<and>
                      completed (status s) \<le> total (status st)) \<and>
         sorted (map (\<lambda>s. completed (status s)) tr) \<and>
         completed (status (last (st # tr))) =
           min (completed (status st) + sum_list (map length (if e = None then bs else butlast bs)))
               (total (status st)) \<and>
         sum_list (map length bs) \<le> length inputs - i"
  using assms
proof (induction "length inputs - i" arbitrary: i st w e tr bs w'' rule: less_induct)
  case less
  let ?K = "batch_size p"
  let ?c = "\<lambda>s. completed (status s)"
  have K: "0 < ?K" by (rule batch_size_pos)
  from less.prems(1) show ?case
  proof (cases rule: batch_loop_cases)
    case Done
    then show ?thesis using less.prems(2) by simp
  next
    case (Fail msg)
    then show ?thesis
      using less.prems(2) by (auto simp: pacing_status length_slice)
  next
    case (Ok rs w' st2 st3 tr' bs')
    let ?n = "length (slice inputs i (i + ?K))"
    have dec: "length inputs - (i + ?K) < length inputs - i"
      using Ok(1) K by auto
    have s2: "status st2 = status st"
      using Ok(3) by (simp add: append_results_def)
    have t3: "total (status st3) = total (status st)"
      and c3: "?c st3 = min (?c st + ?n) (total (status st))"
      using Ok(4) s2 by (simp_all add: advance_def)
    have inv3: "?c st3 \<le> total (status st3)"
      using t3 c3 by simp
    note IH = less.hyps [OF dec Ok(5) inv3]
    have nonempty: "e \<noteq> None \<longrightarrow> bs' \<noteq> []"
      using loop_issued [OF Ok(5)] by simp
    have mono: "?c st \<le> ?c st3"
      using c3 less.prems(2) by simp
    have a: "\<forall>s\<in>set tr. ?c st \<le> ?c s \<and> ?c s \<le> total (status st)"
    proof
      fix s assume "s \<in> set tr"
      then consider "s \<in> set (pacing i st)" | "s = st2" | "s = st3" | "s \<in> set tr'"
        using Ok(6) by auto
      then show "?c st \<le> ?c s \<and> ?c s \<le> total (status st)"
      proof cases
        case 1 then show ?thesis using less.prems(2) by (simp add: pacing_status)
      next
        case 2 then show ?thesis using less.prems(2) s2 by simp
      next
        case 3 then show ?thesis using mono inv3 t3 by simp
      next
        case 4 then show ?thesis using IH mono t3 by fastforce
      qed
    qed
    have "sorted (map ?c (pacing i st) @ [?c st2, ?c st3] @ map ?c tr')"
      unfolding sorted_append using IH mono s2 by (auto simp: pacing_status)
    then have b: "sorted (map ?c tr)" using Ok(6) by simp
    have lst: "last (st # tr) = last (st3 # tr')"
      using Ok(6) by simp
    have sm: "sum_list (map length (if e = None then bs else butlast bs)) =
              ?n + sum_list (map length (if e = None then bs' else butlast bs'))"
      using Ok(7) nonempty by simp
    have "?c (last (st3 # tr')) =
            min (?c st3 + sum_list (map length (if e = None then bs' else butlast bs')))
                (total (status st3))"
      using IH by blast
    then have c: "?c (last (st # tr)) =
                    min (?c st + sum_list (map length (if e = None then bs else butlast bs)))
                        (total (status st))"
      unfolding lst sm t3 c3 by (simp add: min_def)
    have "sum_list (map length bs') \<le> length inputs - (i + ?K)"
      using IH by blast
    then have d: "sum_list (map length bs) \<le> length inputs - i"
      unfolding Ok(7) using Ok(1) by (simp add: length_slice)
    show ?thesis by (intro conjI) (rule a b c d)+
  qed
qed

lemma sorted_le_last:
  fixes xs :: "nat list"
  assumes "sorted xs" "x \<in> set xs"
  shows "x \<le> last xs"
  using assms by (induction xs) auto

lemma sum_butlast_le:
  fixes ns :: "nat list"
  shows "sum_list (butlast ns) \<le> sum_list ns"
  by (induction ns) auto

lemma run_started_status:
  "s \<in> set (run_started n st) \<Longrightarrow>
     status s = \<lparr>total = n, completed = 0, isProcessing = True, error = None\<rparr>"
  by (auto simp: run_started_def)

lemma last_run_started:
  "status (last (run_started n st)) = \<lparr>total = n, completed = 0, isProcessing = True, error = None\<rparr>"
  "results (last (run_started n st)) = []"
  by (simp_all add: run_started_def)

lemma run_ended_progress:
  "s \<in> set (run_ended describe e st) \<Longrightarrow>
     completed (status s) = completed (status st) \<and> total (status s) = total (status st)"
  by (auto simp: run_ended_def Let_def split: option.splits)

lemma run_ended_last:
  "status (last (run_ended describe e st)) =
     (status st)\<lparr>error := (case e of None \<Rightarrow> error (status st) | Some msg \<Rightarrow> Some (describe msg)),
                 isProcessing := False\<rparr>"
  "results (last (run_ended describe e st)) = results st"
  "isWaitingForNextBatch (last (run_ended describe e st)) = False"
  "run_ended describe e st \<noteq> []"
  by (simp_all add: run_ended_def Let_def split: option.splits)

lemma started_run_shape:
  obtains e tr bs w' where
    "batch_loop gem ds p key inputs 0 (last (run_started (length inputs) st)) w = (e, tr, bs, w')"
    "started_run describe gem ds p key inputs st w =
       \<lparr>alert = None,
        trace = run_started (length inputs) st @ tr @
                run_ended describe e (last (run_started (length inputs) st @ tr)),
        issued = bs, world = w'\<rparr>"
proof -
  obtain e tr bs w' where
    l: "batch_loop gem ds p key inputs 0 (last (run_started (length inputs) st)) w = (e, tr, bs, w')"
    by (metis prod_cases4)
  then show ?thesis
    using that [of e tr bs w'] by (simp add: started_run_def Let_def)
qed

lemma sorted_constant:
  fixes xs :: "nat list"
  assumes "\<forall>x\<in>set xs. x = k"
  shows "sorted xs"
  using assms by (induction xs) auto

lemma last_append_cons: "xs \<noteq> [] \<Longrightarrow> last (xs @ ys) = last (last xs # ys)"
  by (cases ys) auto

text \<open>Progress over a whole run.\<close>

lemma started_run_progress:
  assumes r: "r = started_run describe gem ds p key inputs st w"
  shows "\<forall>s\<in>set (trace r). completed (status s) \<le> total (status s) \<and>
                            total (status s) = length inputs"
    and "sorted (map (\<lambda>s. completed (status s)) (trace r))"
    and "error (status (final st r)) \<noteq> None \<longrightarrow>
           issued r \<noteq> [] \<and>
           completed (status (final st r)) = sum_list (map length (butlast (issued r)))"
proof -
  let ?N = "length inputs"
  let ?S = "run_started ?N st"
  let ?c = "\<lambda>s. completed (status s)"
  obtain e tr bs w' where
    loop: "batch_loop gem ds p key inputs 0 (last ?S) w = (e, tr, bs, w')" and
    shape: "started_run describe gem ds p key inputs st w =
       \<lparr>alert = None, trace = ?S @ tr @ run_ended describe e (last (?S @ tr)),
        issued = bs, world = w'\<rparr>"
    by (rule started_run_shape)
  let ?sl = "last (?S @ tr)"
  let ?E = "run_ended describe e ?sl"
  have tr_r: "trace r = ?S @ tr @ ?E" and is_r: "issued r = bs"
    using r shape by simp_all
  have S0: "?c (last ?S) = 0" "total (status (last ?S)) = ?N" "error (status (last ?S)) = None"
    by (simp_all add: last_run_started)
  have inv0: "?c (last ?S) \<le> total (status (last ?S))"
    using S0 by simp
  note kept = loop_status_kept [OF loop]
  note prog = loop_completed [OF loop inv0]
  note p1 = prog [THEN conjunct1]
  note p2 = prog [THEN conjunct2, THEN conjunct1]
  note p3 = prog [THEN conjunct2, THEN conjunct2, THEN conjunct1]
  note p4 = prog [THEN conjunct2, THEN conjunct2, THEN conjunct2]
  have sl: "?sl = last (last ?S # tr)"
    by (rule last_append_cons) (simp add: run_started_def)
  have sl_in: "?sl = last ?S \<or> ?sl \<in> set tr"
    unfolding sl by (cases tr) simp_all
  have tr_total: "total (status s) = ?N" "error (status s) = None" if "s \<in> set tr" for s
    using kept that S0 by simp_all
  have tr_bound: "?c s \<le> ?N" if "s \<in> set tr" for s
    using p1 that S0 by simp
  have sl_status: "total (status ?sl) = ?N" "error (status ?sl) = None" "?c ?sl \<le> ?N"
    using sl_in tr_total tr_bound S0 by (elim disjE; simp)+
  have sl_top: "\<forall>s\<in>set tr. ?c s \<le> ?c ?sl"
  proof
    fix s assume s: "s \<in> set tr"
    then have "tr \<noteq> []" by auto
    then have "?c ?sl = last (map ?c tr)"
      unfolding sl by (simp add: last_map)
    moreover have "?c s \<le> last (map ?c tr)"
      using p2 s by (intro sorted_le_last) simp_all
    ultimately show "?c s \<le> ?c ?sl" by simp
  qed
  show "\<forall>s\<in>set (trace r). ?c s \<le> total (status s) \<and> total (status s) = ?N"
  proof
    fix s assume "s \<in> set (trace r)"
    then consider "s \<in> set ?S" | "s \<in> set tr" | "s \<in> set ?E"
      using tr_r by auto
    then show "?c s \<le> total (status s) \<and> total (status s) = ?N"
    proof cases
      case 1 then show ?thesis by (simp add: run_started_status)
    next
      case 2 then show ?thesis using tr_total(1) [OF 2] tr_bound [OF 2] by simp
    next
      case 3 then show ?thesis using run_ended_progress [OF 3] sl_status by simp
    qed
  qed
  have "sorted (map ?c ?S @ map ?c tr @ map ?c ?E)"
    unfolding sorted_append
  proof (intro conjI ballI)
    show "sorted (map ?c ?S)" by (simp add: run_started_def)
    show "sorted (map ?c tr)" by (rule p2)
    show "sorted (map ?c ?E)"
      by (rule sorted_constant [where k = "?c ?sl"]) (auto simp: run_ended_progress)
  next
    fix x y assume "x \<in> set (map ?c tr)" "y \<in> set (map ?c ?E)"
    then show "x \<le> y" using sl_top by (auto simp: run_ended_progress)
  next
    fix x y assume "x \<in> set (map ?c ?S)" "y \<in> set (map ?c tr @ map ?c ?E)"
    then have "x = 0" by (auto simp: run_started_status)
    then show "x \<le> y" by simp
  qed
  then show "sorted (map ?c (trace r))"
    using tr_r by simp
  show "error (status (final st r)) \<noteq> None \<longrightarrow>
           issued r \<noteq> [] \<and> ?c (final st r) = sum_list (map length (butlast (issued r)))"
  proof
    assume err: "error (status (final st r)) \<noteq> None"
    have fin: "final st r = last ?E"
      using tr_r by (simp add: final_def run_ended_last)
    have "e \<noteq> None"
      using err sl_status(2) unfolding fin by (cases e) (simp_all add: run_ended_last)
    then have ne: "bs \<noteq> []"
      using loop_issued [OF loop] by simp
    have "?c ?sl = min (sum_list (map length (butlast bs))) ?N"
      using p3 S0 \<open>e \<noteq> None\<close> unfolding sl by simp
    moreover have "sum_list (map length (butlast bs)) \<le> ?N"
      using p4 sum_butlast_le [of "map length bs"] by (simp add: map_butlast)
    moreover have "?c (final st r) = ?c ?sl"
      unfolding fin by (simp add: run_ended_last)
    ultimately show "issued r \<noteq> [] \<and> ?c (final st r) = sum_list (map length (butlast (issued r)))"
      using ne is_r by simp
  qed
qed






text \<open>A run whose second batch fails.\<close>

lemma started_run_second_fails:
  assumes r: "r = started_run describe gem ds p key inputs st w"
    and two: "batch_size p < length inputs"
    and b1: "call_adapter gem ds p key (slice inputs 0 (batch_size p)) w = (Inr rs1, w1)"
    and b2: "call_adapter gem ds p key
               (slice inputs (batch_size p) (batch_size p + batch_size p)) w1 = (Inl msg, w2)"
  shows "results (final st r) = rs1"
    and "error (status (final st r)) = Some (describe msg)"
    and "issued r = [slice inputs 0 (batch_size p),
                     slice inputs (batch_size p) (batch_size p + batch_size p)]"
    and "isProcessing (status (final st r)) = False"
    and "isWaitingForNextBatch (final st r) = False"
    and "world r = w2"
proof -
  let ?N = "length inputs"
  let ?K = "batch_size p"
  let ?S = "run_started ?N st"
  let ?s0 = "last ?S"
  let ?st2 = "append_results rs1 (last (?s0 # pacing 0 ?s0))"
  let ?st3 = "advance (length (slice inputs 0 (0 + ?K))) ?st2"
  have K: "0 < ?K" by (rule batch_size_pos)
  have ne: "0 < length inputs" using two by linarith
  have second: "batch_loop gem ds p key inputs (0 + ?K) ?st3 w1 =
                  (Some msg, pacing (0 + ?K) ?st3, [slice inputs (0 + ?K) (0 + ?K + ?K)], w2)"
    using two b2 by (intro batch_loop_fail) simp_all
  have first: "batch_loop gem ds p key inputs 0 ?s0 w =
                 (Some msg, pacing 0 ?s0 @ [?st2, ?st3] @ pacing (0 + ?K) ?st3,
                  slice inputs 0 (0 + ?K) # [slice inputs (0 + ?K) (0 + ?K + ?K)], w2)"
    using b1 by (intro batch_loop_ok [OF ne _ refl refl second]) simp
  let ?tr = "[?st2, ?st3] @ pacing ?K ?st3"
  have run: "r = \<lparr>alert = None, trace = ?S @ ?tr @ run_ended describe (Some msg) (last (?S @ ?tr)),
                  issued = [slice inputs 0 ?K, slice inputs ?K (?K + ?K)], world = w2\<rparr>"
    using first r by (simp add: started_run_def Let_def pacing_def)
  let ?sl = "last (?S @ ?tr)"
  have fin: "final st r = last (run_ended describe (Some msg) ?sl)"
    unfolding run by (simp add: final_def run_ended_last del: append.simps)
  have sl: "?sl = last (pacing ?K ?st3)"
    using K by (simp add: pacing_def)
  have res: "results ?sl = rs1"
    unfolding sl using K
    by (simp add: pacing_def advance_def append_results_def last_run_started)
  show "results (final st r) = rs1"
    unfolding fin using res by (simp add: run_ended_last del: append.simps)
  show "error (status (final st r)) = Some (describe msg)"
    unfolding fin by (simp add: run_ended_last del: append.simps)
  show "isProcessing (status (final st r)) = False"
    unfolding fin by (simp add: run_ended_last del: append.simps)
  show "isWaitingForNextBatch (final st r) = False"
    unfolding fin by (simp add: run_ended_last del: append.simps)
  show "issued r = [slice inputs 0 ?K, slice inputs ?K (?K + ?K)]" and "world r = w2"
    unfolding run by simp_all
qed

lemma three_slices:
  fixes K :: nat
  assumes "2 * K < n" "n \<le> 3 * K"
  shows "(n + K - 1) div K = 3"
proof -
  have "K * 3 \<le> n + K - 1" and "n + K - 1 < K * Suc 3"
    using assms by simp_all
  then show ?thesis by (rule div_nat_eqI)
qed

lemma first_two_slices:
  assumes "2 * K < length xs" "length xs \<le> 3 * K"
  shows "length (schedule K xs) = 3"
    and "take 2 (schedule K xs) = [slice xs 0 K, slice xs K (K + K)]"
proof -
  have c: "(length xs + K - 1) div K = 3"
    using assms by (rule three_slices)
  have s: "schedule K xs = map (\<lambda>j. slice xs (j * K) (j * K + K)) [0 ..< 3]"
    unfolding schedule_def c ..
  show "length (schedule K xs) = 3"
    unfolding s by simp
  have "[0 ..< 3] = [0, 1, 2::nat]"
    by (simp add: upt_rec)
  then show "take 2 (schedule K xs) = [slice xs 0 K, slice xs K (K + K)]"
    unfolding s by simp
qed

lemma interrupted_nonempty: "interrupted msg \<noteq> []" "interrupted_ds msg \<noteq> []"
  by (simp_all add: interrupted_def interrupted_ds_def)

text \<open>
  C2.  In a run whose input is sliced into three batches and whose second adapter call
  throws after the first has returned its records: the result list ends as exactly the
  records of batch 1, the status holds a non-empty error that contains the thrown
  message, the adapter was called for the first two slices only, \<open>isProcessing\<close> ends
  false.  This holds in both variants of the component.
\<close>

theorem partial_results_kept:
  "((r = handleProcess gem ds st w \<and> inputs = parseInput (rawInput st) \<and>
     K = batch_size (provider st) \<and>
     \<not> (provider st = DeepSeek \<and> trim (deepSeekKey st) = []) \<and>
     2 * K < length inputs \<and> length inputs \<le> 3 * K \<and>
     call_adapter gem ds (provider st) (deepSeekKey st) (slice inputs 0 K) w = (Inr rs1, w1) \<and>
     call_adapter gem ds (provider st) (deepSeekKey st) (slice inputs K (K + K)) w1
       = (Inl msg, w2)) \<longrightarrow>
      length (schedule K inputs) = 3 \<and>
      issued r = take 2 (schedule K inputs) \<and>
      results (final st r) = rs1 \<and>
      error (status (final st r)) = Some (interrupted msg) \<and> interrupted msg \<noteq> [] \<and>
      isProcessing (status (final st r)) = False \<and>
      world r = w2) \<and>
   ((r' = handleProcess_ds ds' st' w \<and> inputs' = parseInput (rawInput st') \<and>
     trim (apiKey st') \<noteq> [] \<and>
     2 * 5 < length inputs' \<and> length inputs' \<le> 3 * 5 \<and>
     ds' (slice inputs' 0 5) (apiKey st') w = (Inr rs1', w1') \<and>
     ds' (slice inputs' 5 (5 + 5)) (apiKey st') w1' = (Inl msg', w2')) \<longrightarrow>
      length (schedule 5 inputs') = 3 \<and>
      issued r' = take 2 (schedule 5 inputs') \<and>
      results (final st' r') = rs1' \<and>
      error (status (final st' r')) = Some (interrupted_ds msg') \<and> interrupted_ds msg' \<noteq> [] \<and>
      isProcessing (status (final st' r')) = False \<and>
      world r' = w2')"
proof (intro conjI impI)
  assume a: "r = handleProcess gem ds st w \<and> inputs = parseInput (rawInput st) \<and>
     K = batch_size (provider st) \<and>
     \<not> (provider st = DeepSeek \<and> trim (deepSeekKey st) = []) \<and>
     2 * K < length inputs \<and> length inputs \<le> 3 * K \<and>
     call_adapter gem ds (provider st) (deepSeekKey st) (slice inputs 0 K) w = (Inr rs1, w1) \<and>
     call_adapter gem ds (provider st) (deepSeekKey st) (slice inputs K (K + K)) w1
       = (Inl msg, w2)"
  then have rd: "r = handleProcess gem ds st w" and ind: "inputs = parseInput (rawInput st)"
    and Kd: "K = batch_size (provider st)"
    and cred: "\<not> (provider st = DeepSeek \<and> trim (deepSeekKey st) = [])"
    and n1: "2 * K < length inputs" and n2: "length inputs \<le> 3 * K"
    and b1: "call_adapter gem ds (provider st) (deepSeekKey st) (slice inputs 0 K) w = (Inr rs1, w1)"
    and b2: "call_adapter gem ds (provider st) (deepSeekKey st) (slice inputs K (K + K)) w1
               = (Inl msg, w2)"
    by blast+
  have ne: "parseInput (rawInput st) \<noteq> []" using n1 ind by auto
  have r: "r = started_run interrupted gem ds (provider st) (deepSeekKey st) inputs st w"
    unfolding rd ind by (rule handleProcess_started [OF ne cred])
  have two: "batch_size (provider st) < length inputs"
    using n1 Kd by linarith
  note S = started_run_second_fails [OF r two b1 [unfolded Kd] b2 [unfolded Kd], folded Kd]
  note F = first_two_slices [OF n1 n2]
  show "length (schedule K inputs) = 3" by (rule F(1))
  show "issued r = take 2 (schedule K inputs)" unfolding F(2) by (rule S(3))
  show "results (final st r) = rs1" by (rule S(1))
  show "error (status (final st r)) = Some (interrupted msg)" by (rule S(2))
  show "isProcessing (status (final st r)) = False" by (rule S(4))
  show "world r = w2" by (rule S(6))
  show "interrupted msg \<noteq> []" by (rule interrupted_nonempty)
next
  assume a: "r' = handleProcess_ds ds' st' w \<and> inputs' = parseInput (rawInput st') \<and>
     trim (apiKey st') \<noteq> [] \<and>
     2 * 5 < length inputs' \<and> length inputs' \<le> 3 * 5 \<and>
     ds' (slice inputs' 0 5) (apiKey st') w = (Inr rs1', w1') \<and>
     ds' (slice inputs' 5 (5 + 5)) (apiKey st') w1' = (Inl msg', w2')"
  then have rd: "r' = handleProcess_ds ds' st' w" and ind: "inputs' = parseInput (rawInput st')"
    and cred: "trim (apiKey st') \<noteq> []"
    and n1: "2 * 5 < length inputs'" and n2: "length inputs' \<le> 3 * 5"
    and c1: "ds' (slice inputs' 0 5) (apiKey st') w = (Inr rs1', w1')"
    and c2: "ds' (slice inputs' 5 (5 + 5)) (apiKey st') w1' = (Inl msg', w2')"
    by blast+
  let ?gem = "\<lambda>b w. (Inl [], w)"
  have ne: "parseInput (rawInput st') \<noteq> []" using n1 ind by auto
  have r: "r' = started_run interrupted_ds ?gem ds' DeepSeek (apiKey st') inputs' st' w"
    unfolding rd ind by (rule handleProcess_ds_started [OF cred ne])
  have K: "batch_size DeepSeek = 5" by (simp add: batch_size_def)
  have two: "batch_size DeepSeek < length inputs'"
    using n1 K by linarith
  have b1: "call_adapter ?gem ds' DeepSeek (apiKey st') (slice inputs' 0 (batch_size DeepSeek)) w
              = (Inr rs1', w1')"
    and b2: "call_adapter ?gem ds' DeepSeek (apiKey st')
               (slice inputs' (batch_size DeepSeek) (batch_size DeepSeek + batch_size DeepSeek)) w1'
              = (Inl msg', w2')"
    using c1 c2 by (simp_all add: call_adapter_def K)
  note S = started_run_second_fails [OF r two b1 b2, unfolded K]
  note F = first_two_slices [OF n1 n2]
  show "length (schedule 5 inputs') = 3" by (rule F(1))
  show "issued r' = take 2 (schedule 5 inputs')" unfolding F(2) by (rule S(3))
  show "results (final st' r') = rs1'" by (rule S(1))
  show "error (status (final st' r')) = Some (interrupted_ds msg')" by (rule S(2))
  show "isProcessing (status (final st' r')) = False" by (rule S(4))
  show "world r' = w2'" by (rule S(6))
  show "interrupted_ds msg' \<noteq> []" by (rule interrupted_nonempty)
qed

lemma parse_samples:
  "parseInput one_line = [ab]"
  "parseInput five_lines = [ab, ab, ab, ab, ab]"
  "parseInput nine_lines = [ab, ab, ab, ab, ab, ab, ab, ab, ab]"
  "parseInput eleven_lines = [ab, ab, ab, ab, ab, ab, ab, ab, ab, ab, ab]"
  by (simp_all add: parseInput_def parse_line_def part_trimmed_def trim_def is_ws_def asc_def
      TAB_def NL_def SP_def one_line_def five_lines_def nine_lines_def eleven_lines_def ab_def)

lemma trim_sample_key: "trim (asc ''sk-1'') = asc ''sk-1''"
  by (simp add: trim_def is_ws_def asc_def)

theorem partial_results_kept_witness:
  "results (final (gemini_state nine_lines)
      (handleProcess second_fails (\<lambda>b k. second_fails b) (gemini_state nine_lines) 0))
     = [0, 0, 0, 0] \<and>
   error (status (final (gemini_state nine_lines)
      (handleProcess second_fails (\<lambda>b k. second_fails b) (gemini_state nine_lines) 0)))
     = Some (interrupted (asc ''quota'')) \<and>
   issued (handleProcess second_fails (\<lambda>b k. second_fails b) (gemini_state nine_lines) 0)
     = [[ab, ab, ab, ab], [ab, ab, ab, ab]] \<and>
   results (final (deepseek_state eleven_lines (asc ''sk-1''))
      (handleProcess_ds (\<lambda>b k. second_fails b) (deepseek_state eleven_lines (asc ''sk-1'')) 0))
     = [0, 0, 0, 0, 0] \<and>
   issued (handleProcess_ds (\<lambda>b k. second_fails b) (deepseek_state eleven_lines (asc ''sk-1'')) 0)
     = [[ab, ab, ab, ab, ab], [ab, ab, ab, ab, ab]] \<and>
   isProcessing (status (final (deepseek_state eleven_lines (asc ''sk-1''))
      (handleProcess_ds (\<lambda>b k. second_fails b) (deepseek_state eleven_lines (asc ''sk-1'')) 0)))
     = False"
proof -
  note T = partial_results_kept [where
      r = "handleProcess second_fails (\<lambda>b k. second_fails b) (gemini_state nine_lines) 0"
      and gem = second_fails and ds = "\<lambda>b k. second_fails b" and st = "gemini_state nine_lines"
      and w = 0 and inputs = "[ab, ab, ab, ab, ab, ab, ab, ab, ab]" and K = 4
      and ?rs1.0 = "[0, 0, 0, 0]" and ?w1.0 = 1 and msg = "asc ''quota''" and ?w2.0 = 2
      and r' = "handleProcess_ds (\<lambda>b k. second_fails b)
                  (deepseek_state eleven_lines (asc ''sk-1'')) 0"
      and ds' = "\<lambda>b k. second_fails b" and st' = "deepseek_state eleven_lines (asc ''sk-1'')"
      and inputs' = "[ab, ab, ab, ab, ab, ab, ab, ab, ab, ab, ab]"
      and ?rs1' = "[0, 0, 0, 0, 0]" and ?w1' = 1 and msg' = "asc ''quota''" and ?w2' = 2]
  have s3: "[0 ..< 3] = [0, 1, 2::nat]" by (simp add: upt_rec)
  have k: "asc ''sk-1'' \<noteq> []" by (simp add: asc_def)
  show ?thesis
    using T
    by (simp add: gemini_state_def deepseek_state_def parse_samples trim_sample_key batch_size_def
        call_adapter_def slice_def second_fails_def echo_adapter_def failing_adapter_def
        schedule_def s3 k)
qed

lemma sample_key_present: "trim (asc ''sk-1'') \<noteq> []"
  by (simp add: trim_def is_ws_def asc_def)

lemma started_run_issued_eq:
  "issued (started_run describe gem ds p key inputs st w) =
     fst (snd (snd (batch_loop gem ds p key inputs 0 (last (run_started (length inputs) st)) w)))"
  by (simp add: started_run_def Let_def split: prod.splits)



text \<open>
  C3.  From the first state set by a started run to its last, in both variants:
  \<open>completed\<close> never exceeds \<open>total\<close>, \<open>total\<close> is the number of parsed inputs, and
  \<open>completed\<close> never decreases from one state to the next.  When the run ends with an
  error in the status, a batch call failed, and \<open>completed\<close> is the sum of the sizes of
  the batches handed out before the failing one.
\<close>

theorem progress_bounded_monotone:
  "((r = handleProcess gem ds st w \<and> parseInput (rawInput st) \<noteq> [] \<and>
     \<not> (provider st = DeepSeek \<and> trim (deepSeekKey st) = [])) \<longrightarrow>
      (\<forall>s\<in>set (trace r). completed (status s) \<le> total (status s) \<and>
                           total (status s) = length (parseInput (rawInput st))) \<and>
      sorted (map (\<lambda>s. completed (status s)) (trace r)) \<and>
      (error (status (final st r)) \<noteq> None \<longrightarrow>
         issued r \<noteq> [] \<and>
         completed (status (final st r)) = sum_list (map length (butlast (issued r))))) \<and>
   ((r' = handleProcess_ds ds' st' w \<and> trim (apiKey st') \<noteq> [] \<and>
     parseInput (rawInput st') \<noteq> []) \<longrightarrow>
      (\<forall>s\<in>set (trace r'). completed (status s) \<le> total (status s) \<and>
                            total (status s) = length (parseInput (rawInput st'))) \<and>
      sorted (map (\<lambda>s. completed (status s)) (trace r')) \<and>
      (error (status (final st' r')) \<noteq> None \<longrightarrow>
         issued r' \<noteq> [] \<and>
         completed (status (final st' r')) = sum_list (map length (butlast (issued r')))))"
proof (intro conjI impI)
  assume "r = handleProcess gem ds st w \<and> parseInput (rawInput st) \<noteq> [] \<and>
     \<not> (provider st = DeepSeek \<and> trim (deepSeekKey st) = [])"
  then have r: "r = started_run interrupted gem ds (provider st) (deepSeekKey st)
                      (parseInput (rawInput st)) st w"
    using handleProcess_started [of st gem ds w] by blast
  note P = started_run_progress [OF r]
  show "\<forall>s\<in>set (trace r). completed (status s) \<le> total (status s) \<and>
                           total (status s) = length (parseInput (rawInput st))"
    by (rule P(1))
  show "sorted (map (\<lambda>s. completed (status s)) (trace r))"
    by (rule P(2))
  assume "error (status (final st r)) \<noteq> None"
  then show "issued r \<noteq> []"
    and "completed (status (final st r)) = sum_list (map length (butlast (issued r)))"
    using P(3) by blast+
next
  assume "r' = handleProcess_ds ds' st' w \<and> trim (apiKey st') \<noteq> [] \<and>
     parseInput (rawInput st') \<noteq> []"
  then have r: "r' = started_run interrupted_ds (\<lambda>b w. (Inl [], w)) ds' DeepSeek (apiKey st')
                       (parseInput (rawInput st')) st' w"
    using handleProcess_ds_started [of st' ds' w "\<lambda>b w. (Inl [], w)"] by blast
  note P = started_run_progress [OF r]
  show "\<forall>s\<in>set (trace r'). completed (status s) \<le> total (status s) \<and>
                            total (status s) = length (parseInput (rawInput st'))"
    by (rule P(1))
  show "sorted (map (\<lambda>s. completed (status s)) (trace r'))"
    by (rule P(2))
  assume "error (status (final st' r')) \<noteq> None"
  then show "issued r' \<noteq> []"
    and "completed (status (final st' r')) = sum_list (map length (butlast (issued r')))"
    using P(3) by blast+
qed

lemma interrupted_sample_runs:
  "error (status (final (gemini_state nine_lines)
      (handleProcess second_fails (\<lambda>b k. second_fails b) (gemini_state nine_lines) 0)))
     = Some (interrupted (asc ''quota''))"
  "issued (handleProcess second_fails (\<lambda>b k. second_fails b) (gemini_state nine_lines) 0)
     = [[ab, ab, ab, ab], [ab, ab, ab, ab]]"
  "error (status (final (deepseek_state eleven_lines (asc ''sk-1''))
      (handleProcess_ds (\<lambda>b k. second_fails b) (deepseek_state eleven_lines (asc ''sk-1'')) 0)))
     = Some (interrupted_ds (asc ''quota''))"
  "issued (handleProcess_ds (\<lambda>b k. second_fails b) (deepseek_state eleven_lines (asc ''sk-1'')) 0)
     = [[ab, ab, ab, ab, ab], [ab, ab, ab, ab, ab]]"
proof -
  let ?g = "gemini_state nine_lines"
  let ?d = "deepseek_state eleven_lines (asc ''sk-1'')"
  let ?gem = "\<lambda>b w. (Inl [], w)"
  have k: "trim (apiKey ?d) \<noteq> []"
    by (simp add: deepseek_state_def sample_key_present)
  have g: "handleProcess second_fails (\<lambda>b k. second_fails b) ?g 0 =
             started_run interrupted second_fails (\<lambda>b k. second_fails b) Gemini []
               [ab, ab, ab, ab, ab, ab, ab, ab, ab] ?g 0"
    using handleProcess_started [of ?g second_fails "\<lambda>b k. second_fails b" 0]
    by (simp add: gemini_state_def parse_samples)
  have d: "handleProcess_ds (\<lambda>b k. second_fails b) ?d 0 =
             started_run interrupted_ds ?gem (\<lambda>b k. second_fails b) DeepSeek (asc ''sk-1'')
               [ab, ab, ab, ab, ab, ab, ab, ab, ab, ab, ab] ?d 0"
    using handleProcess_ds_started [OF k, of "\<lambda>b k. second_fails b" 0 ?gem]
    by (simp add: deepseek_state_def parse_samples)
  note G = started_run_second_fails [OF g, of "[0, 0, 0, 0]" 1 "asc ''quota''" 2]
  note D = started_run_second_fails [OF d, of "[0, 0, 0, 0, 0]" 1 "asc ''quota''" 2]
  have gh: "batch_size Gemini < length [ab, ab, ab, ab, ab, ab, ab, ab, ab]"
    "call_adapter second_fails (\<lambda>b k. second_fails b) Gemini []
       (slice [ab, ab, ab, ab, ab, ab, ab, ab, ab] 0 (batch_size Gemini)) 0 = (Inr [0, 0, 0, 0], 1)"
    "call_adapter second_fails (\<lambda>b k. second_fails b) Gemini []
       (slice [ab, ab, ab, ab, ab, ab, ab, ab, ab] (batch_size Gemini)
          (batch_size Gemini + batch_size Gemini)) 1 = (Inl (asc ''quota''), 2)"
    by (simp_all add: batch_size_def call_adapter_def slice_def second_fails_def echo_adapter_def
        failing_adapter_def)
  have dh: "batch_size DeepSeek < length [ab, ab, ab, ab, ab, ab, ab, ab, ab, ab, ab]"
    "call_adapter ?gem (\<lambda>b k. second_fails b) DeepSeek (asc ''sk-1'')
       (slice [ab, ab, ab, ab, ab, ab, ab, ab, ab, ab, ab] 0 (batch_size DeepSeek)) 0
       = (Inr [0, 0, 0, 0, 0], 1)"
    "call_adapter ?gem (\<lambda>b k. second_fails b) DeepSeek (asc ''sk-1'')
       (slice [ab, ab, ab, ab, ab, ab, ab, ab, ab, ab, ab] (batch_size DeepSeek)
          (batch_size DeepSeek + batch_size DeepSeek)) 1 = (Inl (asc ''quota''), 2)"
    by (simp_all add: batch_size_def call_adapter_def slice_def second_fails_def echo_adapter_def
        failing_adapter_def)
  show "error (status (final ?g (handleProcess second_fails (\<lambda>b k. second_fails b) ?g 0)))
          = Some (interrupted (asc ''quota''))"
    by (rule G(2) [OF gh])
  show "issued (handleProcess second_fails (\<lambda>b k. second_fails b) ?g 0)
          = [[ab, ab, ab, ab], [ab, ab, ab, ab]]"
    using G(3) [OF gh] by (simp add: batch_size_def slice_def)
  show "error (status (final ?d (handleProcess_ds (\<lambda>b k. second_fails b) ?d 0)))
          = Some (interrupted_ds (asc ''quota''))"
    by (rule D(2) [OF dh])
  show "issued (handleProcess_ds (\<lambda>b k. second_fails b) ?d 0)
          = [[ab, ab, ab, ab, ab], [ab, ab, ab, ab, ab]]"
    using D(3) [OF dh] by (simp add: batch_size_def slice_def)
qed

theorem progress_bounded_monotone_witness:
  "completed (status (final (gemini_state nine_lines)
      (handleProcess second_fails (\<lambda>b k. second_fails b) (gemini_state nine_lines) 0))) = 4 \<and>
   sorted (map (\<lambda>s. completed (status s))
      (trace (handleProcess second_fails (\<lambda>b k. second_fails b) (gemini_state nine_lines) 0))) \<and>
   total (status (final (gemini_state nine_lines)
      (handleProcess second_fails (\<lambda>b k. second_fails b) (gemini_state nine_lines) 0))) = 9 \<and>
   completed (status (final (deepseek_state eleven_lines (asc ''sk-1''))
      (handleProcess_ds (\<lambda>b k. second_fails b) (deepseek_state eleven_lines (asc ''sk-1'')) 0)))
     = 5 \<and>
   sorted (map (\<lambda>s. completed (status s))
      (trace (handleProcess_ds (\<lambda>b k. second_fails b)
                (deepseek_state eleven_lines (asc ''sk-1'')) 0)))"
proof -
  note T = progress_bounded_monotone [where
      r = "handleProcess second_fails (\<lambda>b k. second_fails b) (gemini_state nine_lines) 0"
      and gem = second_fails and ds = "\<lambda>b k. second_fails b" and st = "gemini_state nine_lines"
      and w = 0
      and r' = "handleProcess_ds (\<lambda>b k. second_fails b)
                  (deepseek_state eleven_lines (asc ''sk-1'')) 0"
      and ds' = "\<lambda>b k. second_fails b" and st' = "deepseek_state eleven_lines (asc ''sk-1'')"]
  have h: "parseInput (rawInput (gemini_state nine_lines)) = [ab, ab, ab, ab, ab, ab, ab, ab, ab]"
    "parseInput (rawInput (deepseek_state eleven_lines (asc ''sk-1'')))
       = [ab, ab, ab, ab, ab, ab, ab, ab, ab, ab, ab]"
    by (simp_all add: gemini_state_def deepseek_state_def parse_samples)
  have ne: "parseInput (rawInput (gemini_state nine_lines)) \<noteq> []"
    "parseInput (rawInput (deepseek_state eleven_lines (asc ''sk-1''))) \<noteq> []"
    and len: "length (parseInput (rawInput (gemini_state nine_lines))) = 9"
    unfolding h by simp_all
  have c: "provider (gemini_state nine_lines) = Gemini"
    "trim (apiKey (deepseek_state eleven_lines (asc ''sk-1''))) \<noteq> []"
    by (simp_all add: gemini_state_def deepseek_state_def sample_key_present)
  have s: "sum_list (map length (butlast [[ab, ab, ab, ab], [ab, ab, ab, ab]])) = 4"
    "sum_list (map length (butlast [[ab, ab, ab, ab, ab], [ab, ab, ab, ab, ab]])) = 5"
    by simp_all
  let ?R = "handleProcess second_fails (\<lambda>b k. second_fails b) (gemini_state nine_lines) 0"
  let ?R' = "handleProcess_ds (\<lambda>b k. second_fails b) (deepseek_state eleven_lines (asc ''sk-1'')) 0"
  have A: "(\<forall>s\<in>set (trace ?R). completed (status s) \<le> total (status s) \<and>
                           total (status s) = length (parseInput (rawInput (gemini_state nine_lines)))) \<and>
      sorted (map (\<lambda>s. completed (status s)) (trace ?R)) \<and>
      (error (status (final (gemini_state nine_lines) ?R)) \<noteq> None \<longrightarrow>
         issued ?R \<noteq> [] \<and>
         completed (status (final (gemini_state nine_lines) ?R))
           = sum_list (map length (butlast (issued ?R))))"
    by (rule T [THEN conjunct1, THEN mp]) (simp add: ne c)
  have B: "(\<forall>s\<in>set (trace ?R'). completed (status s) \<le> total (status s) \<and>
                           total (status s)
                             = length (parseInput (rawInput (deepseek_state eleven_lines (asc ''sk-1''))))) \<and>
      sorted (map (\<lambda>s. completed (status s)) (trace ?R')) \<and>
      (error (status (final (deepseek_state eleven_lines (asc ''sk-1'')) ?R')) \<noteq> None \<longrightarrow>
         issued ?R' \<noteq> [] \<and>
         completed (status (final (deepseek_state eleven_lines (asc ''sk-1'')) ?R'))
           = sum_list (map length (butlast (issued ?R'))))"
    by (rule T [THEN conjunct2, THEN mp]) (simp add: ne c)
  have "completed (status (final (gemini_state nine_lines) ?R)) = 4"
    using A by (simp add: interrupted_sample_runs s)
  moreover have "completed (status (final (deepseek_state eleven_lines (asc ''sk-1'')) ?R')) = 5"
    using B by (simp add: interrupted_sample_runs s)
  moreover have "total (status (final (gemini_state nine_lines) ?R)) = 9"
  proof -
    have "?R = started_run interrupted second_fails (\<lambda>b k. second_fails b)
                 (provider (gemini_state nine_lines)) (deepSeekKey (gemini_state nine_lines))
                 (parseInput (rawInput (gemini_state nine_lines))) (gemini_state nine_lines) 0"
      by (rule handleProcess_started) (simp_all add: ne c)
    then have "trace ?R \<noteq> []"
      by (simp add: started_run_def Let_def run_started_def split: prod.splits)
    then have "final (gemini_state nine_lines) ?R \<in> set (trace ?R)"
      by (simp add: final_def)
    then show ?thesis
      using A len by auto
  qed
  ultimately show ?thesis
    using A B by blast
qed






end
